theory Spec2Isabelle
  imports Main "HOL-Library.Word" "HOL-Library.AList"
begin

section \<open>Go values used by the file logger\<close>

text \<open>
  The logger is \<^verbatim>\<open>src/logger/file.go\<close>. Go's \<^verbatim>\<open>int\<close> (on a 64-bit platform),
  \<^verbatim>\<open>int64\<close> and \<^verbatim>\<open>time.Duration\<close> are 64-bit two's complement integers: they are
  modelled as \<open>64 word\<close>, so \<open>+\<close> and \<open>*\<close> wrap as they do in Go, and the signed
  comparisons are \<open>\<le>s\<close> and \<open><s\<close>. \<^verbatim>\<open>logLevel\<close> is an integer type that is only
  compared, never computed with, so it is an \<open>int\<close>.
\<close>

type_synonym goint = "64 word"
type_synonym filemode = "32 word"
type_synonym path = string
type_synonym logLevel = int

text \<open>
  A \<^verbatim>\<open>time.Time\<close> is observed through \<^verbatim>\<open>Day()\<close>, \<^verbatim>\<open>Format("2006-01-02")\<close>,
  \<^verbatim>\<open>Add\<close> and \<^verbatim>\<open>Before\<close>: the record holds the instant in nanoseconds and the
  calendar date the value shows in its own location.
\<close>

record gotime =
  instant :: int
  tyear :: nat
  tmonth :: nat
  tday :: nat

definition Day :: "gotime \<Rightarrow> goint" where
  "Day t = of_nat (tday t)"

text \<open>An \<^verbatim>\<open>*os.File\<close>: the inode it was opened on, its name, and whether it was closed.\<close>

record ofile =
  fino :: nat
  fname :: path
  closed :: bool

text \<open>The \<^verbatim>\<open>fileLogger\<close> struct; the embedded lock has no sequential content.\<close>

record fileLogger =
  fileWriter :: "ofile option"
  Filename :: string
  Append :: bool
  MaxLines :: goint
  MaxSize :: goint
  Daily :: bool
  MaxDays :: goint
  Level :: string
  PermitMask :: string
  LogLevel :: logLevel
  maxSizeCurSize :: goint
  maxLinesCurLines :: goint
  dailyOpenDate :: goint
  dailyOpenTime :: gotime
  fileNameOnly :: string
  suffix :: string

section \<open>The rotation trigger\<close>

definition needCreateFresh :: "fileLogger \<Rightarrow> goint \<Rightarrow> goint \<Rightarrow> bool" where
  "needCreateFresh f sz day =
     ((0 <s MaxLines f \<and> MaxLines f \<le>s maxLinesCurLines f) \<or>
      (0 <s MaxSize f \<and> MaxSize f \<le>s maxSizeCurSize f + sz) \<or>
      (Daily f \<and> day \<noteq> dailyOpenDate f))"

section \<open>Errors\<close>

text \<open>
  Every call the logger makes on the operating system or on the Go library is an
  \<open>event\<close>. The same type names the call in an error and in the trace of the world.
\<close>

datatype event =
    OsOpenFile path filemode
  | OsChmod path filemode
  | OsOpen path
  | OsLstat path
  | OsRename path path
  | OsRemove path
  | FileStat path
  | FileClose path
  | FileWrite path
  | FileRead path
  | Walk path
  | GoDeleteOldLog

text \<open>
  A Go \<^verbatim>\<open>error\<close>. The first group are errors of the library; the second group are the
  errors the logger builds itself with \<^verbatim>\<open>errors.New\<close> and \<^verbatim>\<open>fmt.Errorf\<close>, one
  constructor for each format string, holding the error it wraps.
\<close>

datatype error =
    ErrInvalid
  | ErrClosed event
  | ErrNotExist event
  | ErrIsDir event
  | OSError event
  | NumError string
  | JsonError string
  | ErrNoFilename
  | GetStatErr error
  | RotateStartLogger error
  | NoFreeLogNumber path
  | RotateErr error

text \<open>What the logger prints on \<^verbatim>\<open>common.StdErr\<close>, one constructor for each format string.\<close>

datatype report =
    CreateFreshFileReport path error
  | RenameReport path path error

section \<open>The file system\<close>

text \<open>
  Directory entries bind a path to an inode; an open file keeps its inode when its name
  is renamed or removed. Paths are kept as the program passes them. \<open>denied\<close> is the
  environment: the calls that the operating system refuses (permissions, a read-only or
  full disk, no descriptors left). \<open>trace\<close> records every call in order, \<open>stderr\<close>
  what was printed on the error sink. \<open>now\<close> is what \<^verbatim>\<open>time.Now()\<close> returns.
\<close>

record fnode =
  is_dir :: bool
  content :: string
  mod_time :: int

record fileinfo =
  fi_size :: goint
  fi_modTime :: int
  fi_isDir :: bool

record world =
  dirents :: "(path \<times> nat) list"
  inodes :: "nat \<Rightarrow> fnode"
  next_ino :: nat
  now :: gotime
  denied :: "event \<Rightarrow> bool"
  trace :: "event list"
  stderr :: "report list"

definition emit :: "event \<Rightarrow> world \<Rightarrow> world" where
  "emit e w = w\<lparr>trace := trace w @ [e]\<rparr>"

definition info_of :: "fnode \<Rightarrow> fileinfo" where
  "info_of n = \<lparr>fi_size = of_nat (length (content n)), fi_modTime = mod_time n,
                fi_isDir = is_dir n\<rparr>"

definition lookup :: "world \<Rightarrow> path \<Rightarrow> nat option" where
  "lookup w p = map_of (dirents w) p"

text \<open>\<^verbatim>\<open>os.Lstat\<close> reports an error exactly when the name is not there.\<close>

definition os_Lstat :: "path \<Rightarrow> world \<Rightarrow> (error + fileinfo) \<times> world" where
  "os_Lstat p w =
     (case lookup w p of
        None \<Rightarrow> (Inl (ErrNotExist (OsLstat p)), emit (OsLstat p) w)
      | Some i \<Rightarrow> (Inr (info_of (inodes w i)), emit (OsLstat p) w))"

text \<open>
  \<^verbatim>\<open>os.OpenFile(name, O_WRONLY|O_APPEND|O_CREATE, perm)\<close>: an existing file is opened
  as it is, a missing one is created empty.
\<close>

definition os_OpenFile :: "path \<Rightarrow> filemode \<Rightarrow> world \<Rightarrow> (error + ofile) \<times> world" where
  "os_OpenFile p m w =
     (let ev = OsOpenFile p m; w1 = emit ev w in
      if denied w ev then (Inl (OSError ev), w1)
      else case lookup w p of
        Some i \<Rightarrow>
          if is_dir (inodes w i) then (Inl (ErrIsDir ev), w1)
          else (Inr \<lparr>fino = i, fname = p, closed = False\<rparr>, w1)
      | None \<Rightarrow>
          (let i = next_ino w in
           (Inr \<lparr>fino = i, fname = p, closed = False\<rparr>,
            w1\<lparr>dirents := AList.update p i (dirents w),
               inodes := (inodes w)(i := \<lparr>is_dir = False, content = [],
                                         mod_time = instant (now w)\<rparr>),
               next_ino := Suc i\<rparr>)))"

text \<open>Permission bits are not stored: \<^verbatim>\<open>os.Chmod\<close> succeeds or fails.\<close>

definition os_Chmod :: "path \<Rightarrow> filemode \<Rightarrow> world \<Rightarrow> error option \<times> world" where
  "os_Chmod p m w =
     (let ev = OsChmod p m; w1 = emit ev w in
      if denied w ev then (Some (OSError ev), w1)
      else if lookup w p = None then (Some (ErrNotExist ev), w1)
      else (None, w1))"

definition os_Rename :: "path \<Rightarrow> path \<Rightarrow> world \<Rightarrow> error option \<times> world" where
  "os_Rename src dst w =
     (let ev = OsRename src dst; w1 = emit ev w in
      if denied w ev then (Some (OSError ev), w1)
      else case lookup w src of
        None \<Rightarrow> (Some (ErrNotExist ev), w1)
      | Some i \<Rightarrow>
          (None, w1\<lparr>dirents := AList.update dst i (AList.delete src (dirents w))\<rparr>))"

definition os_Remove :: "path \<Rightarrow> world \<Rightarrow> error option \<times> world" where
  "os_Remove p w =
     (let ev = OsRemove p; w1 = emit ev w in
      if denied w ev then (Some (OSError ev), w1)
      else if lookup w p = None then (Some (ErrNotExist ev), w1)
      else (None, w1\<lparr>dirents := AList.delete p (dirents w)\<rparr>))"

text \<open>
  The methods of \<^verbatim>\<open>*os.File\<close>. On a nil receiver they return \<^verbatim>\<open>os.ErrInvalid\<close>, on
  a closed file an error wrapping \<^verbatim>\<open>os.ErrClosed\<close>; neither reaches the operating
  system.
\<close>

definition file_Close :: "ofile option \<Rightarrow> world \<Rightarrow> error option \<times> ofile option \<times> world" where
  "file_Close fp w =
     (case fp of
        None \<Rightarrow> (Some ErrInvalid, None, w)
      | Some h \<Rightarrow>
          if closed h then (Some (ErrClosed (FileClose (fname h))), fp, w)
          else (None, Some (h\<lparr>closed := True\<rparr>), emit (FileClose (fname h)) w))"

definition file_Write :: "ofile option \<Rightarrow> string \<Rightarrow> world \<Rightarrow> error option \<times> world" where
  "file_Write fp b w =
     (case fp of
        None \<Rightarrow> (Some ErrInvalid, w)
      | Some h \<Rightarrow>
          if closed h then (Some (ErrClosed (FileWrite (fname h))), w)
          else
            (let ev = FileWrite (fname h); w1 = emit ev w; n = inodes w (fino h) in
             if denied w ev then (Some (OSError ev), w1)
             else (None, w1\<lparr>inodes := (inodes w)(fino h :=
                     n\<lparr>content := content n @ b, mod_time := instant (now w)\<rparr>)\<rparr>)))"

definition file_Stat :: "ofile \<Rightarrow> world \<Rightarrow> (error + fileinfo) \<times> world" where
  "file_Stat h w =
     (let ev = FileStat (fname h); w1 = emit ev w in
      if closed h then (Inl (ErrClosed ev), w)
      else if denied w ev then (Inl (OSError ev), w1)
      else (Inr (info_of (inodes w (fino h))), w1))"

text \<open>\<^verbatim>\<open>os.Open\<close>: open an existing name for reading.\<close>

definition os_Open :: "path \<Rightarrow> world \<Rightarrow> (error + ofile) \<times> world" where
  "os_Open p w =
     (let ev = OsOpen p; w1 = emit ev w in
      if denied w ev then (Inl (OSError ev), w1)
      else case lookup w p of
        None \<Rightarrow> (Inl (ErrNotExist ev), w1)
      | Some i \<Rightarrow> (Inr \<lparr>fino = i, fname = p, closed = False\<rparr>, w1))"

section \<open>Library functions on strings, numbers and paths\<close>

definition HasPrefix :: "string \<Rightarrow> string \<Rightarrow> bool" where
  "HasPrefix s p = (length p \<le> length s \<and> take (length p) s = p)"

definition HasSuffix :: "string \<Rightarrow> string \<Rightarrow> bool" where
  "HasSuffix s x = (length x \<le> length s \<and> drop (length s - length x) s = x)"

definition TrimSuffix :: "string \<Rightarrow> string \<Rightarrow> string" where
  "TrimSuffix s x = (if HasSuffix s x then take (length s - length x) s else s)"

definition IsPathSeparator :: "char \<Rightarrow> bool" where
  "IsPathSeparator c = (c = CHR ''/'')"

text \<open>
  \<^verbatim>\<open>filepath.Ext\<close> walks back from the end of the path to the last separator and
  returns the text from the first dot it meets.
\<close>

fun ext_scan :: "string \<Rightarrow> string \<Rightarrow> string" where
  "ext_scan [] acc = []"
| "ext_scan (c # cs) acc =
     (if IsPathSeparator c then []
      else if c = CHR ''.'' then c # acc
      else ext_scan cs (c # acc))"

definition Ext :: "path \<Rightarrow> string" where
  "Ext p = ext_scan (rev p) []"

definition Base :: "path \<Rightarrow> string" where
  "Base p =
     (if p = [] then ''.''
      else
        (let stripped = rev (dropWhile IsPathSeparator (rev p));
             el = rev (takeWhile (\<lambda>c. \<not> IsPathSeparator c) (rev stripped))
         in if el = [] then ''/'' else el))"

text \<open>\<^verbatim>\<open>filepath.Clean\<close>, on the elements of the path.\<close>

fun split_path :: "string \<Rightarrow> string \<Rightarrow> string list" where
  "split_path [] cur = [rev cur]"
| "split_path (c # cs) cur =
     (if IsPathSeparator c then rev cur # split_path cs [] else split_path cs (c # cur))"

fun clean_elems :: "string list \<Rightarrow> bool \<Rightarrow> string list \<Rightarrow> string list" where
  "clean_elems [] rooted st = rev st"
| "clean_elems (e # es) rooted st =
     (if e = [] \<or> e = ''.'' then clean_elems es rooted st
      else if e = ''..'' then
        (case st of
           [] \<Rightarrow> if rooted then clean_elems es rooted [] else clean_elems es rooted [e]
         | t # ts \<Rightarrow> if t = ''..'' then clean_elems es rooted (e # st)
                     else clean_elems es rooted ts)
      else clean_elems es rooted (e # st))"

fun join_elems :: "string list \<Rightarrow> string" where
  "join_elems [] = []"
| "join_elems [e] = e"
| "join_elems (e # es) = e @ ''/'' @ join_elems es"

definition Clean :: "path \<Rightarrow> path" where
  "Clean p =
     (let rooted = (p \<noteq> [] \<and> IsPathSeparator (hd p));
          body = join_elems (clean_elems (split_path p []) rooted [])
      in if rooted then ''/'' @ body else if body = [] then ''.'' else body)"

definition Dir :: "path \<Rightarrow> path" where
  "Dir p = Clean (rev (dropWhile (\<lambda>c. \<not> IsPathSeparator c) (rev p)))"

text \<open>Decimal digits, and zero padding to a width as \<^verbatim>\<open>%03d\<close> does.\<close>

fun dec :: "nat \<Rightarrow> string" where
  "dec n = (if n < 10 then [char_of (48 + n)] else dec (n div 10) @ [char_of (48 + n mod 10)])"

declare dec.simps [simp del]

definition pad :: "nat \<Rightarrow> string \<Rightarrow> string" where
  "pad k s = replicate (k - length s) (CHR ''0'') @ s"

text \<open>\<^verbatim>\<open>t.Format("2006-01-02")\<close>.\<close>

definition Format_date :: "gotime \<Rightarrow> string" where
  "Format_date t = pad 4 (dec (tyear t)) @ ''-'' @ pad 2 (dec (tmonth t)) @ ''-'' @ pad 2 (dec (tday t))"

text \<open>
  \<^verbatim>\<open>strconv.ParseInt(s, 8, 64)\<close>: an optional sign, then one or more octal digits, and
  the value must fit 64 bits.
\<close>

definition is_octal :: "char \<Rightarrow> bool" where
  "is_octal c = (48 \<le> (of_char c :: nat) \<and> (of_char c :: nat) \<le> 55)"

definition octal_value :: "string \<Rightarrow> int" where
  "octal_value ds = foldl (\<lambda>v c. 8 * v + (of_char c - 48)) 0 ds"

definition ParseInt8 :: "string \<Rightarrow> error + goint" where
  "ParseInt8 s =
     (let neg = (s \<noteq> [] \<and> hd s = CHR ''-'');
          ds = (if s \<noteq> [] \<and> (hd s = CHR ''+'' \<or> hd s = CHR ''-'') then tl s else s)
      in if ds = [] \<or> \<not> list_all is_octal ds then Inl (NumError s)
         else if neg then
           (if 2 ^ 63 < octal_value ds then Inl (NumError s)
            else Inr (- of_int (octal_value ds)))
         else
           (if 2 ^ 63 \<le> octal_value ds then Inl (NumError s)
            else Inr (of_int (octal_value ds))))"

definition FileMode :: "goint \<Rightarrow> filemode" where
  "FileMode perm = ucast perm"


section \<open>Opening the log file\<close>

text \<open>
  The newline byte the logger appends to a message and counts in a file, and
  \<^verbatim>\<open>bytes.Count(b, lineSep)\<close> for that one-byte separator.
\<close>

definition newline :: char where
  "newline = CHR 0x0A"

definition bytes_Count :: "string \<Rightarrow> nat" where
  "bytes_Count b = length (filter (\<lambda>c. c = newline) b)"

definition createLogFile :: "fileLogger \<Rightarrow> world \<Rightarrow> (error + ofile) \<times> world" where
  "createLogFile f w =
     (case ParseInt8 (PermitMask f) of
        Inl err \<Rightarrow> (Inl err, w)
      | Inr perm \<Rightarrow>
          (case os_OpenFile (Filename f) (FileMode perm) w of
             (Inl err, w1) \<Rightarrow> (Inl err, w1)
           | (Inr fd, w1) \<Rightarrow>
               (case os_Chmod (Filename f) (FileMode perm) w1 of
                  (Some err, w2) \<Rightarrow> (Inl err, w2)
                | (None, w2) \<Rightarrow> (Inr fd, w2))))"

text \<open>
  The loop of \<^verbatim>\<open>lines\<close>: \<open>rest\<close> is what the descriptor has not read yet. A read
  gives \<open>c\<close> bytes, as many as the 32768-byte buffer and the file allow; at the end of
  the file it gives no bytes and \<^verbatim>\<open>io.EOF\<close>, and the loop stops after counting in
  the empty slice. Any other read error is returned with the count so far.
\<close>

function lines_loop :: "ofile \<Rightarrow> string \<Rightarrow> goint \<Rightarrow> world \<Rightarrow> (goint \<times> error option) \<times> world" where
  "lines_loop fd rest count w =
     (let ev = FileRead (fname fd); w1 = emit ev w in
      if denied w ev then ((count, Some (OSError ev)), w1)
      else if is_dir (inodes w (fino fd)) then ((count, Some (ErrIsDir ev)), w1)
      else
        (let c = min 32768 (length rest) in
         if c = 0 then ((count + of_nat (bytes_Count (take c rest)), None), w1)
         else lines_loop fd (drop c rest) (count + of_nat (bytes_Count (take c rest))) w1))"
  by pat_completeness auto
termination
  by (relation "measure (\<lambda>(fd, rest, count, w). length rest)") auto

declare lines_loop.simps [simp del]

definition lines :: "fileLogger \<Rightarrow> world \<Rightarrow> (goint \<times> error option) \<times> world" where
  "lines f w =
     (case os_Open (Filename f) w of
        (Inl err, w1) \<Rightarrow> ((0, Some err), w1)
      | (Inr fd, w1) \<Rightarrow>
          (case lines_loop fd (content (inodes w1 (fino fd))) 0 w1 of
             (r, w2) \<Rightarrow> (r, snd (snd (file_Close (Some fd) w2)))))"

definition newFile :: "fileLogger \<Rightarrow> world \<Rightarrow> error option \<times> fileLogger \<times> world" where
  "newFile f w =
     (case createLogFile f w of
        (Inl err, w1) \<Rightarrow> (Some err, f, w1)
      | (Inr file, w1) \<Rightarrow>
          (let w2 = (if fileWriter f \<noteq> None then snd (snd (file_Close (fileWriter f) w1)) else w1);
               f1 = f\<lparr>fileWriter := Some file\<rparr>
           in case file_Stat file w2 of
                (Inl err, w3) \<Rightarrow> (Some (GetStatErr err), f1, w3)
              | (Inr fInfo, w3) \<Rightarrow>
                  (let f2 = f1\<lparr>maxSizeCurSize := fi_size fInfo\<rparr>;
                       f3 = f2\<lparr>dailyOpenTime := now w3\<rparr>;
                       f4 = f3\<lparr>dailyOpenDate := Day (dailyOpenTime f3)\<rparr>;
                       f5 = f4\<lparr>maxLinesCurLines := 0\<rparr>
                   in if 0 <s maxSizeCurSize f5 then
                        (case lines f5 w3 of
                           ((count, Some err), w4) \<Rightarrow> (Some err, f5, w4)
                         | ((count, None), w4) \<Rightarrow> (None, f5\<lparr>maxLinesCurLines := count\<rparr>, w4))
                      else (None, f5, w3))))"

section \<open>Configuration\<close>

text \<open>
  \<^verbatim>\<open>json.Unmarshal\<close> is the library's: \<open>decode\<close> stands for it and gives, for a
  configuration text, the exported fields it found and its error if any. A field the
  text does not mention keeps its value.
\<close>

record json_fields =
  jFilename :: "string option"
  jAppend :: "bool option"
  jMaxLines :: "goint option"
  jMaxSize :: "goint option"
  jDaily :: "bool option"
  jMaxDays :: "goint option"
  jLevel :: "string option"
  jPermitMask :: "string option"
  jLogLevel :: "logLevel option"

definition keep :: "'a option \<Rightarrow> 'a \<Rightarrow> 'a" where
  "keep j v = (case j of None \<Rightarrow> v | Some x \<Rightarrow> x)"

definition store_fields :: "json_fields \<Rightarrow> fileLogger \<Rightarrow> fileLogger" where
  "store_fields j f =
     f\<lparr>Filename := keep (jFilename j) (Filename f),
       Append := keep (jAppend j) (Append f),
       MaxLines := keep (jMaxLines j) (MaxLines f),
       MaxSize := keep (jMaxSize j) (MaxSize f),
       Daily := keep (jDaily j) (Daily f),
       MaxDays := keep (jMaxDays j) (MaxDays f),
       Level := keep (jLevel j) (Level f),
       PermitMask := keep (jPermitMask j) (PermitMask f),
       LogLevel := keep (jLogLevel j) (LogLevel f)\<rparr>"

text \<open>\<open>LevelMap\<close> is the table of the logging package, from level names to levels.\<close>

definition Init ::
  "(string \<Rightarrow> error option \<times> json_fields) \<Rightarrow> (string \<rightharpoonup> logLevel) \<Rightarrow>
   string \<Rightarrow> fileLogger \<Rightarrow> world \<Rightarrow> error option \<times> fileLogger \<times> world" where
  "Init decode LevelMap jsonConfig f w =
     (if length jsonConfig = 0 then (None, f, w)
      else
        (let f0 = store_fields (snd (decode jsonConfig)) f in
         case fst (decode jsonConfig) of
           Some err \<Rightarrow> (Some err, f0, w)
         | None \<Rightarrow>
             if length (Filename f0) = 0 then (Some ErrNoFilename, f0, w)
             else
               (let f1 = f0\<lparr>suffix := Ext (Filename f0)\<rparr>;
                    f2 = f1\<lparr>fileNameOnly := TrimSuffix (Filename f1) (suffix f1)\<rparr>;
                    f3 = f2\<lparr>MaxSize := MaxSize f2 * (1024 * 1024)\<rparr>;
                    f4 = (if suffix f3 = [] then f3\<lparr>suffix := ''.log''\<rparr> else f3);
                    f5 = (case LevelMap (Level f4) of
                            Some l \<Rightarrow> f4\<lparr>LogLevel := l\<rparr>
                          | None \<Rightarrow> f4)
                in newFile f5 w)))"

section \<open>Rotation\<close>

text \<open>
  \<^verbatim>\<open>go fl.deleteOldLog()\<close> starts the sweep as a task of its own: the trace records
  that it was started, and the sweep is a step of the world of its own (below).
\<close>

definition RestartLogger :: "fileLogger \<Rightarrow> world \<Rightarrow> error option \<times> fileLogger \<times> world" where
  "RestartLogger fl w =
     (case newFile fl w of
        (startLoggerErr, fl1, w1) \<Rightarrow>
          (case startLoggerErr of
             Some e \<Rightarrow> (Some (RotateStartLogger e), fl1, emit GoDeleteOldLog w1)
           | None \<Rightarrow> (None, fl1, emit GoDeleteOldLog w1)))"

text \<open>\<^verbatim>\<open>fmt.Sprintf(".%s.%03d%s", date, num, f.suffix)\<close> after the base name.\<close>

definition archive_name :: "fileLogger \<Rightarrow> string \<Rightarrow> nat \<Rightarrow> path" where
  "archive_name f date num = fileNameOnly f @ ''.'' @ date @ ''.'' @ pad 3 (dec num) @ suffix f"

text \<open>
  The loop \<^verbatim>\<open>for ; err == nil && num <= 999; num++\<close>, with the loop variables
  \<open>err\<close>, \<open>num\<close> and \<open>fName\<close>.
\<close>

function probe ::
  "fileLogger \<Rightarrow> string \<Rightarrow> error option \<Rightarrow> nat \<Rightarrow> path \<Rightarrow> world \<Rightarrow>
   (error option \<times> nat \<times> path) \<times> world" where
  "probe f date err num fName w =
     (if err = None \<and> num \<le> 999 then
        (case os_Lstat (archive_name f date num) w of
           (Inl e, w1) \<Rightarrow> probe f date (Some e) (num + 1) (archive_name f date num) w1
         | (Inr fi, w1) \<Rightarrow> probe f date None (num + 1) (archive_name f date num) w1)
      else ((err, num, fName), w))"
  by pat_completeness auto
termination
  by (relation "measure (\<lambda>(f, date, err, num, fName, w). 1000 - num)") auto

declare probe.simps [simp del]

definition createFreshFile :: "gotime \<Rightarrow> fileLogger \<Rightarrow> world \<Rightarrow> error option \<times> fileLogger \<times> world" where
  "createFreshFile logTime f w =
     (case ParseInt8 (PermitMask f) of
        Inl err \<Rightarrow> (Some err, f, w)
      | Inr rotatePerm \<Rightarrow>
          (case os_Lstat (Filename f) w of
             (Inl err, w1) \<Rightarrow> RestartLogger f w1
           | (Inr fi, w1) \<Rightarrow>
               (case (if dailyOpenDate f \<noteq> Day logTime
                      then probe f (Format_date (dailyOpenTime f)) None 1 [] w1
                      else probe f (Format_date logTime) None 1 [] w1) of
                  ((None, num, fName), w2) \<Rightarrow> (Some (NoFreeLogNumber (Filename f)), f, w2)
                | ((Some e, num, fName), w2) \<Rightarrow>
                    (case file_Close (fileWriter f) w2 of
                       (cerr, fw, w3) \<Rightarrow>
                         (let f1 = f\<lparr>fileWriter := fw\<rparr> in
                          case os_Rename (Filename f1) fName w3 of
                            (Some err, w4) \<Rightarrow>
                              RestartLogger f1
                                (w4\<lparr>stderr := stderr w4 @ [RenameReport (Filename f1) fName err]\<rparr>)
                          | (None, w4) \<Rightarrow>
                              (case os_Chmod fName (FileMode rotatePerm) w4 of
                                 (Some err, w5) \<Rightarrow> (Some (RotateErr err), f1, w5)
                               | (None, w5) \<Rightarrow> RestartLogger f1 w5))))))"

section \<open>Writing\<close>

text \<open>A message is any value; only a string is written.\<close>

datatype msgText = StringMsg string | OtherMsg

text \<open>
  The block \<^verbatim>\<open>if f.Append { ... }\<close> of \<^verbatim>\<open>LogWrite\<close>: the trigger is evaluated
  under the read lock and again under the write lock, and an error of the rotation is
  printed on the error sink. One call runs at a time here, so the two evaluations see the
  same logger.
\<close>

definition rotate_if_due :: "gotime \<Rightarrow> string \<Rightarrow> fileLogger \<Rightarrow> world \<Rightarrow> fileLogger \<times> world" where
  "rotate_if_due when msg f w =
     (if Append f then
        (if needCreateFresh f (of_nat (length msg)) (Day when) then
           (if needCreateFresh f (of_nat (length msg)) (Day when) then
              (case createFreshFile when f w of
                 (Some err, f1, w1) \<Rightarrow>
                   (f1, w1\<lparr>stderr := stderr w1 @ [CreateFreshFileReport (Filename f1) err]\<rparr>)
               | (None, f1, w1) \<Rightarrow> (f1, w1))
            else (f, w))
         else (f, w))
      else (f, w))"

definition LogWrite ::
  "gotime \<Rightarrow> msgText \<Rightarrow> logLevel \<Rightarrow> fileLogger \<Rightarrow> world \<Rightarrow> error option \<times> fileLogger \<times> world" where
  "LogWrite when msgText level f w =
     (case msgText of
        OtherMsg \<Rightarrow> (None, f, w)
      | StringMsg m \<Rightarrow>
          if LogLevel f < level then (None, f, w)
          else
            (let msg = m @ [newline] in
             case rotate_if_due when msg f w of
               (f1, w1) \<Rightarrow>
                 (case file_Write (fileWriter f1) msg w1 of
                    (None, w2) \<Rightarrow>
                      (None,
                       f1\<lparr>maxLinesCurLines := maxLinesCurLines f1 + 1,
                          maxSizeCurSize := maxSizeCurSize f1 + of_nat (length msg)\<rparr>,
                       w2)
                  | (Some err, w2) \<Rightarrow> (Some err, f1, w2))))"

section \<open>The retention sweep\<close>

text \<open>
  \<^verbatim>\<open>24*time.Hour*time.Duration(f.MaxDays)\<close> is a product of 64-bit nanosecond counts
  and wraps; \<^verbatim>\<open>Add\<close> moves the instant by its signed value.
\<close>

definition retention :: "fileLogger \<Rightarrow> goint" where
  "retention f = 86400000000000 * MaxDays f"

text \<open>
  The function \<^verbatim>\<open>deleteOldLog\<close> hands to \<^verbatim>\<open>filepath.Walk\<close>. It discards the
  result of \<^verbatim>\<open>os.Remove\<close>, nothing in it panics and it always returns nil, so neither
  message of \<^verbatim>\<open>deleteOldLog\<close> is ever printed on the error sink.
\<close>

definition walkFn :: "fileLogger \<Rightarrow> path \<Rightarrow> fileinfo option \<Rightarrow> world \<Rightarrow> world" where
  "walkFn f p info w =
     (case info of
        None \<Rightarrow> w
      | Some fi \<Rightarrow>
          if MaxDays f \<noteq> - 1 \<and> \<not> fi_isDir fi \<and>
             fi_modTime fi + sint (retention f) < instant (now w)
          then
            (if HasPrefix (Base p) (Base (fileNameOnly f)) \<and> HasSuffix (Base p) (suffix f)
             then snd (os_Remove p w) else w)
          else w)"

text \<open>
  \<^verbatim>\<open>filepath.Walk(root, fn)\<close> calls \<open>fn\<close> on the root and on every name below it,
  each with what \<^verbatim>\<open>Lstat\<close> says of it when it is visited; a root that is missing is
  visited alone, with no file information. The names below a root are the directory
  entries that extend it by a separator.
\<close>

definition beneath :: "path \<Rightarrow> path \<Rightarrow> bool" where
  "beneath root p =
     (if root = ''.'' then p \<noteq> ''.'' \<and> p \<noteq> ''..'' \<and> \<not> HasPrefix p ''/'' \<and> \<not> HasPrefix p ''../''
      else if root = ''/'' then p \<noteq> ''/'' \<and> HasPrefix p ''/''
      else HasPrefix p (root @ ''/'') \<and> p \<noteq> root @ ''/'')"

definition visit :: "(path \<Rightarrow> fileinfo option \<Rightarrow> world \<Rightarrow> world) \<Rightarrow> path \<Rightarrow> world \<Rightarrow> world" where
  "visit fn p w = fn p (map_option (\<lambda>i. info_of (inodes w i)) (lookup w p)) w"

definition filepath_Walk :: "path \<Rightarrow> (path \<Rightarrow> fileinfo option \<Rightarrow> world \<Rightarrow> world) \<Rightarrow> world \<Rightarrow> world" where
  "filepath_Walk root fn w =
     (case lookup w root of
        None \<Rightarrow> fn root None (emit (Walk root) w)
      | Some i \<Rightarrow>
          if is_dir (inodes w i)
          then fold (visit fn) (root # filter (beneath root) (map fst (dirents w))) (emit (Walk root) w)
          else visit fn root (emit (Walk root) w))"

definition deleteOldLog :: "fileLogger \<Rightarrow> world \<Rightarrow> world" where
  "deleteOldLog f w = filepath_Walk (Dir (Filename f)) (walkFn f) w"

section \<open>Shutdown\<close>

definition Destroy :: "fileLogger \<Rightarrow> world \<Rightarrow> fileLogger \<times> world" where
  "Destroy f w =
     (case file_Close (fileWriter f) w of
        (cerr, fw, w1) \<Rightarrow> (f\<lparr>fileWriter := fw\<rparr>, w1))"


section \<open>Notions used in the statements\<close>

text \<open>The sum \<open>byteSize + incomingMessageSize\<close> fits a Go \<^verbatim>\<open>int\<close>.\<close>

definition fits_int :: "goint \<Rightarrow> goint \<Rightarrow> bool" where
  "fits_int a b = (- (2 ^ 63) \<le> sint a + sint b \<and> sint a + sint b < 2 ^ 63)"

text \<open>Rotation is due for the message \<open>m\<close>: the logger appends and the trigger holds.\<close>

definition due :: "gotime \<Rightarrow> string \<Rightarrow> fileLogger \<Rightarrow> bool" where
  "due when m f = (Append f \<and> needCreateFresh f (of_nat (length (m @ [newline]))) (Day when))"

text \<open>The errors the final \<^verbatim>\<open>Write\<close> on the file handle can return.\<close>

fun is_write_error :: "error \<Rightarrow> bool" where
  "is_write_error ErrInvalid = True"
| "is_write_error (ErrClosed (FileWrite p)) = True"
| "is_write_error (OSError (FileWrite p)) = True"
| "is_write_error e = False"

text \<open>The logger holds a file handle that is open.\<close>

definition usable :: "fileLogger \<Rightarrow> bool" where
  "usable f = (case fileWriter f of None \<Rightarrow> False | Some h \<Rightarrow> \<not> closed h)"

text \<open>
  The date stamp as the specification words it: the date of the previous open time when
  the day of month of the write differs from the recorded open day, the date of the
  write otherwise.
\<close>

definition stamp :: "fileLogger \<Rightarrow> gotime \<Rightarrow> string" where
  "stamp f logTime =
     (if Day logTime \<noteq> dailyOpenDate f then Format_date (dailyOpenTime f)
      else Format_date logTime)"

text \<open>The lowest sequence number in 1..999 whose archival name is not on disk.\<close>

definition first_free :: "world \<Rightarrow> fileLogger \<Rightarrow> string \<Rightarrow> nat option" where
  "first_free w f date = find (\<lambda>n. lookup w (archive_name f date n) = None) [1..<1000]"

text \<open>A file of whole lines: each line has no newline inside and ends with one.\<close>

definition whole_lines :: "string list \<Rightarrow> string" where
  "whole_lines ls = concat (map (\<lambda>l. l @ [newline]) ls)"

text \<open>
  The world after the rotator has looked up the active file and the archival names with
  the sequence numbers 1 to \<open>k\<close>, in this order, and the event of closing the logger's
  handle.
\<close>

definition probed :: "world \<Rightarrow> fileLogger \<Rightarrow> string \<Rightarrow> nat \<Rightarrow> world" where
  "probed w f date k =
     w\<lparr>trace := trace w @ OsLstat (Filename f) #
                 map (\<lambda>n. OsLstat (archive_name f date n)) [1..<Suc k]\<rparr>"

definition closing :: "fileLogger \<Rightarrow> event list" where
  "closing f =
     (case fileWriter f of
        None \<Rightarrow> []
      | Some h \<Rightarrow> if closed h then [] else [FileClose (fname h)])"

text \<open>\<open>quiet w w'\<close>: from \<open>w\<close> to \<open>w'\<close> only the trace has grown.\<close>

definition quiet :: "world \<Rightarrow> world \<Rightarrow> bool" where
  "quiet w w' = (\<exists>es. w' = w\<lparr>trace := trace w @ es\<rparr>)"

text \<open>\<open>kept p w w'\<close>: the environment, the error sink and every name but \<open>p\<close> are as before.\<close>

definition kept :: "path \<Rightarrow> world \<Rightarrow> world \<Rightarrow> bool" where
  "kept p w w' =
     (stderr w' = stderr w \<and> denied w' = denied w \<and> now w' = now w \<and>
      (\<exists>es. trace w' = trace w @ es) \<and> (\<forall>q. q \<noteq> p \<longrightarrow> lookup w' q = lookup w q))"

text \<open>The fields \<^verbatim>\<open>newFile\<close> never assigns.\<close>

definition same_config :: "fileLogger \<Rightarrow> fileLogger \<Rightarrow> bool" where
  "same_config f f' =
     (f' = f\<lparr>fileWriter := fileWriter f', maxSizeCurSize := maxSizeCurSize f',
            maxLinesCurLines := maxLinesCurLines f', dailyOpenDate := dailyOpenDate f',
            dailyOpenTime := dailyOpenTime f'\<rparr>)"

text \<open>\<open>swept f w w'\<close>: from \<open>w\<close> to \<open>w'\<close> names were only removed, each for the sweep's reason.\<close>

definition swept :: "fileLogger \<Rightarrow> world \<Rightarrow> world \<Rightarrow> bool" where
  "swept f w w' =
     (inodes w' = inodes w \<and> now w' = now w \<and>
      (\<forall>p. lookup w' p = lookup w p \<or>
           (lookup w' p = None \<and>
            (\<exists>i. lookup w p = Some i \<and> MaxDays f \<noteq> - 1 \<and> \<not> is_dir (inodes w i) \<and>
                 HasPrefix (Base p) (Base (fileNameOnly f)) \<and> HasSuffix (Base p) (suffix f) \<and>
                 mod_time (inodes w i) + sint (retention f) < instant (now w)))))"

section \<open>Example states\<close>

text \<open>
  A logger on \<^verbatim>\<open>log/app.log\<close>, opened on 2021-03-01, holding one line of four
  bytes, and a world in which the clock shows the next day.
\<close>

definition ex_open_time :: gotime where
  "ex_open_time = \<lparr>instant = 1614556800000000000, tyear = 2021, tmonth = 3, tday = 1\<rparr>"

definition ex_same_day :: gotime where
  "ex_same_day = \<lparr>instant = 1614600000000000000, tyear = 2021, tmonth = 3, tday = 1\<rparr>"

definition ex_next_day :: gotime where
  "ex_next_day = \<lparr>instant = 1614643200000000000, tyear = 2021, tmonth = 3, tday = 2\<rparr>"

definition ex_logger :: fileLogger where
  "ex_logger = \<lparr>fileWriter = Some \<lparr>fino = 2, fname = ''log/app.log'', closed = False\<rparr>,
     Filename = ''log/app.log'', Append = True, MaxLines = 10, MaxSize = 0, Daily = True,
     MaxDays = 7, Level = [], PermitMask = ''0777'', LogLevel = 7,
     maxSizeCurSize = 4, maxLinesCurLines = 1, dailyOpenDate = 1,
     dailyOpenTime = ex_open_time, fileNameOnly = ''log/app'', suffix = ''.log''\<rparr>"

definition ex_inodes :: "nat \<Rightarrow> fnode" where
  "ex_inodes i =
     (if i = 1 then \<lparr>is_dir = True, content = [], mod_time = 1614556800000000000\<rparr>
      else \<lparr>is_dir = False, content = ''abc'' @ [newline], mod_time = 1614556800000000000\<rparr>)"

definition ex_world :: world where
  "ex_world = \<lparr>dirents = [(''log'', 1), (''log/app.log'', 2)], inodes = ex_inodes,
     next_ino = 3, now = ex_next_day, denied = (\<lambda>e. False), trace = [], stderr = []\<rparr>"

text \<open>The same world when the operating system refuses a write to the log file.\<close>

definition ex_world_nowrite :: world where
  "ex_world_nowrite = ex_world\<lparr>denied := (\<lambda>e. e = FileWrite ''log/app.log'')\<rparr>"

text \<open>The same world when it refuses to change the mode of the first archival name.\<close>

definition ex_world_nochmod :: world where
  "ex_world_nochmod =
     ex_world\<lparr>denied := (\<lambda>e. e = OsChmod ''log/app.2021-03-01.001.log'' 511)\<rparr>"

text \<open>A write on the same day of month one month later.\<close>

definition ex_next_month :: gotime where
  "ex_next_month = \<lparr>instant = 1617235200000000000, tyear = 2021, tmonth = 4, tday = 1\<rparr>"

text \<open>The world when the first archival name of 2021-03-01 is already there.\<close>

definition ex_world_second :: world where
  "ex_world_second =
     ex_world\<lparr>dirents := [(''log'', 1), (''log/app.log'', 2), (''log/app.2021-03-01.001.log'', 4)],
              next_ino := 5\<rparr>"


text \<open>The world when the operating system refuses the rename to the first archival name.\<close>

definition ex_world_norename :: world where
  "ex_world_norename =
     ex_world\<lparr>denied := (\<lambda>e. e = OsRename ''log/app.log'' ''log/app.2021-03-01.001.log'')\<rparr>"

text \<open>
  The world when the file system has become read-only: the rename is refused, and so is
  opening the log file for writing.
\<close>

definition ex_world_readonly :: world where
  "ex_world_readonly =
     ex_world\<lparr>denied := (\<lambda>e. e = OsRename ''log/app.log'' ''log/app.2021-03-01.001.log'' \<or>
                              e = OsOpenFile ''log/app.log'' 511)\<rparr>"

text \<open>
  The logger as it is registered, before initialization (with 7 for \<^verbatim>\<open>LevelDebug\<close>,
  which the logging package defines), a configuration that names the log file, and what
  the JSON decoder finds in it.
\<close>

definition ex_registered :: fileLogger where
  "ex_registered = \<lparr>fileWriter = None, Filename = [], Append = True, MaxLines = 10,
     MaxSize = 10 * 1024 * 1024, Daily = True, MaxDays = 7, Level = [], PermitMask = ''0777'',
     LogLevel = 7, maxSizeCurSize = 0, maxLinesCurLines = 0, dailyOpenDate = 0,
     dailyOpenTime = \<lparr>instant = 0, tyear = 1, tmonth = 1, tday = 1\<rparr>,
     fileNameOnly = [], suffix = []\<rparr>"

definition ex_config :: string where
  \<open>ex_config = ''{"filename":"log/app.log","maxlines":1000}''\<close>

definition ex_decode :: "string \<Rightarrow> error option \<times> json_fields" where
  "ex_decode s =
     (None, \<lparr>jFilename = Some ''log/app.log'', jAppend = None, jMaxLines = Some 1000,
             jMaxSize = None, jDaily = None, jMaxDays = None, jLevel = None,
             jPermitMask = None, jLogLevel = None\<rparr>)"

text \<open>
  The log directory nine days after the file was opened, when nothing was written in
  between: the active file, an archival file as old, one of yesterday, and a file of
  another name.
\<close>

definition ex_later :: gotime where
  "ex_later = \<lparr>instant = 1615334400000000000, tyear = 2021, tmonth = 3, tday = 10\<rparr>"

definition ex_inodes_later :: "nat \<Rightarrow> fnode" where
  "ex_inodes_later i =
     (if i = 1 then \<lparr>is_dir = True, content = [], mod_time = 1614556800000000000\<rparr>
      else if i = 4 then \<lparr>is_dir = False, content = ''new'' @ [newline],
                           mod_time = 1615248000000000000\<rparr>
      else \<lparr>is_dir = False, content = ''abc'' @ [newline], mod_time = 1614556800000000000\<rparr>)"

definition ex_world_later :: world where
  "ex_world_later =
     \<lparr>dirents = [(''log'', 1), (''log/app.log'', 2), (''log/app.2021-02-28.001.log'', 3),
                 (''log/app.2021-03-09.001.log'', 4), (''log/notes.txt'', 5)],
      inodes = ex_inodes_later, next_ino = 6, now = ex_later, denied = (\<lambda>e. False),
      trace = [], stderr = []\<rparr>"

text \<open>The logger with a retention of zero days, and the clock one second after the write.\<close>

definition ex_logger_nodays :: fileLogger where
  "ex_logger_nodays = ex_logger\<lparr>MaxDays := 0\<rparr>"

definition ex_second_later :: gotime where
  "ex_second_later = \<lparr>instant = 1614643201000000000, tyear = 2021, tmonth = 3, tday = 2\<rparr>"

lemmas ex_defs = ex_open_time_def ex_same_day_def ex_next_day_def ex_logger_def ex_inodes_def
  ex_world_nowrite_def ex_world_nochmod_def
  ex_world_def

lemmas ex2_defs = ex_next_month_def ex_world_second_def ex_world_norename_def
  ex_world_readonly_def ex_later_def ex_inodes_later_def ex_world_later_def
  ex_logger_nodays_def ex_second_later_def

lemmas os_defs = emit_def info_of_def lookup_def os_Lstat_def os_OpenFile_def os_Chmod_def
  os_Rename_def os_Remove_def file_Close_def file_Write_def file_Stat_def os_Open_def

lemmas lib_defs = HasPrefix_def HasSuffix_def TrimSuffix_def IsPathSeparator_def Ext_def Base_def
  Clean_def Dir_def pad_def Format_date_def is_octal_def octal_value_def ParseInt8_def
  FileMode_def dec.simps newline_def bytes_Count_def Day_def word_sle_eq word_sless_alt

lemmas logger_defs = needCreateFresh_def createLogFile_def lines_def lines_loop.simps newFile_def
  RestartLogger_def archive_name_def probe.simps createFreshFile_def rotate_if_due_def
  LogWrite_def retention_def walkFn_def beneath_def visit_def filepath_Walk_def deleteOldLog_def
  Destroy_def

section \<open>The trigger is the stated predicate\<close>

lemma sint_add_fits:
  assumes "fits_int a b"
  shows "sint (a + b) = sint a + sint b"
proof -
  have "sint (a + b) = signed_take_bit 63 (sint a + sint b)"
    by (simp add: sint_word_ariths)
  also have "\<dots> = sint a + sint b"
    using assms by (simp add: fits_int_def signed_take_bit_int_eq_self)
  finally show ?thesis .
qed

text \<open>
  C4. The rotation trigger is a function of the counters, the limits and the incoming
  message size only, and it holds exactly when the line limit is set and reached, or the
  size limit is set and the current size plus the incoming message reaches it, or daily
  rotation is on and the day of month of the write differs from the day the file was
  opened. The integers are read as mathematical integers; the size sum is assumed not to
  overflow a Go int.
\<close>

theorem needCreateFresh_iff:
  assumes "fits_int (maxSizeCurSize f) sz"
  shows "needCreateFresh f sz day \<longleftrightarrow>
     (sint (MaxLines f) > 0 \<and> sint (maxLinesCurLines f) \<ge> sint (MaxLines f)) \<or>
     (sint (MaxSize f) > 0 \<and> sint (maxSizeCurSize f) + sint sz \<ge> sint (MaxSize f)) \<or>
     (Daily f \<and> day \<noteq> dailyOpenDate f)"
  using sint_add_fits [OF assms]
  by (simp add: needCreateFresh_def word_sle_eq word_sless_alt)

theorem needCreateFresh_iff_witness:
  "fits_int (maxSizeCurSize \<lparr>fileWriter = None, Filename = ''log/app.log'', Append = True,
       MaxLines = 0, MaxSize = 100, Daily = False, MaxDays = 7, Level = [],
       PermitMask = ''0777'', LogLevel = 7, maxSizeCurSize = 94, maxLinesCurLines = 3,
       dailyOpenDate = 1, dailyOpenTime = \<lparr>instant = 0, tyear = 2021, tmonth = 3, tday = 1\<rparr>,
       fileNameOnly = ''log/app'', suffix = ''.log''\<rparr>) 6 \<and>
   needCreateFresh \<lparr>fileWriter = None, Filename = ''log/app.log'', Append = True,
       MaxLines = 0, MaxSize = 100, Daily = False, MaxDays = 7, Level = [],
       PermitMask = ''0777'', LogLevel = 7, maxSizeCurSize = 94, maxLinesCurLines = 3,
       dailyOpenDate = 1, dailyOpenTime = \<lparr>instant = 0, tyear = 2021, tmonth = 3, tday = 1\<rparr>,
       fileNameOnly = ''log/app'', suffix = ''.log''\<rparr> 6 1"
proof -
  let ?f = "\<lparr>fileWriter = None, Filename = ''log/app.log'', Append = True,
       MaxLines = 0, MaxSize = 100, Daily = False, MaxDays = 7, Level = [],
       PermitMask = ''0777'', LogLevel = 7, maxSizeCurSize = 94, maxLinesCurLines = 3,
       dailyOpenDate = 1, dailyOpenTime = \<lparr>instant = 0, tyear = 2021, tmonth = 3, tday = 1\<rparr>,
       fileNameOnly = ''log/app'', suffix = ''.log''\<rparr>"
  have h: "fits_int (maxSizeCurSize ?f) 6"
    by (simp add: fits_int_def)
  show ?thesis
    using h needCreateFresh_iff [OF h, of 1] by simp
qed

section \<open>Initialization with an empty configuration\<close>

text \<open>
  C10. Initialization with an empty configuration string returns no error and does
  nothing else: the logger keeps every field it had (the filename is not checked, no
  file handle is created) and the world is untouched (no call reaches the operating
  system, so no file is opened).
\<close>

theorem Init_empty:
  "Init decode LevelMap [] f w = (None, f, w)"
  by (simp add: Init_def)

section \<open>The search for a free archival name\<close>

lemma lookup_emit [simp]: "lookup (emit e w) p = lookup w p"
  by (simp add: lookup_def emit_def)

lemma lookup_trace_update [simp]: "lookup (w\<lparr>trace := t\<rparr>) p = lookup w p"
  by (simp add: lookup_def)

lemma emit_trace_append:
  "(emit e w)\<lparr>trace := trace (emit e w) @ es\<rparr> = w\<lparr>trace := trace w @ e # es\<rparr>"
  by (simp add: emit_def)

lemma os_Lstat_absent:
  "lookup w p = None \<Longrightarrow> os_Lstat p w = (Inl (ErrNotExist (OsLstat p)), emit (OsLstat p) w)"
  by (simp add: os_Lstat_def)

lemma os_Lstat_present:
  "lookup w p = Some i \<Longrightarrow> os_Lstat p w = (Inr (info_of (inodes w i)), emit (OsLstat p) w)"
  by (simp add: os_Lstat_def)

lemma first_free_Some:
  assumes "first_free w f date = Some k"
  shows "1 \<le> k \<and> k \<le> 999 \<and> lookup w (archive_name f date k) = None \<and>
         (\<forall>n. 1 \<le> n \<and> n < k \<longrightarrow> lookup w (archive_name f date n) \<noteq> None)"
proof -
  from assms obtain i where i: "i < length [1..<1000::nat]"
      "lookup w (archive_name f date ([1..<1000] ! i)) = None" "k = [1..<1000] ! i"
      "\<forall>j<i. lookup w (archive_name f date ([1..<1000] ! j)) \<noteq> None"
    unfolding first_free_def find_Some_iff by blast
  have k: "k = Suc i" and "i < 999"
    using i(1,3) by simp_all
  have "lookup w (archive_name f date n) \<noteq> None" if "1 \<le> n" "n < k" for n
  proof -
    have "n - 1 < i" using that k by simp
    then have "lookup w (archive_name f date ([1..<1000] ! (n - 1))) \<noteq> None"
      using i(4) by blast
    moreover have "[1..<1000] ! (n - 1) = n"
      using that k \<open>i < 999\<close> by simp
    ultimately show ?thesis by simp
  qed
  then show ?thesis
    using i(2) k \<open>i < 999\<close> by simp
qed


lemma probe_found:
  assumes "num \<le> k" and "k \<le> 999" and "lookup w (archive_name f date k) = None"
    and "\<forall>n. num \<le> n \<and> n < k \<longrightarrow> lookup w (archive_name f date n) \<noteq> None"
  shows "probe f date None num fName w =
     ((Some (ErrNotExist (OsLstat (archive_name f date k))), Suc k, archive_name f date k),
      w\<lparr>trace := trace w @ map (\<lambda>n. OsLstat (archive_name f date n)) [num..<Suc k]\<rparr>)"
  using assms
proof (induction "k - num" arbitrary: num fName w)
  case 0
  then have "num = k" by simp
  then show ?case
    using "0.prems" by (simp add: probe.simps [of f date None k] probe.simps [of f date "Some _"]
        os_Lstat_absent emit_def)
next
  case (Suc d)
  then have lt: "num < k" by simp
  then obtain i where i: "lookup w (archive_name f date num) = Some i"
    using Suc.prems(4) by fastforce
  let ?w1 = "emit (OsLstat (archive_name f date num)) w"
  have step: "probe f date None num fName w =
              probe f date None (Suc num) (archive_name f date num) ?w1"
    using lt Suc.prems(2) by (simp add: probe.simps [of f date None num] os_Lstat_present [OF i])
  have "probe f date None (Suc num) (archive_name f date num) ?w1 =
     ((Some (ErrNotExist (OsLstat (archive_name f date k))), Suc k, archive_name f date k),
      ?w1\<lparr>trace := trace ?w1 @ map (\<lambda>n. OsLstat (archive_name f date n)) [Suc num..<Suc k]\<rparr>)"
    using Suc.hyps(2) lt Suc.prems by (intro Suc.hyps(1)) auto
  then show ?case
    using lt unfolding step emit_trace_append by (simp add: upt_conv_Cons)
qed


section \<open>What the calls leave unchanged\<close>

lemma quiet_refl [simp]: "quiet w w"
  by (auto simp: quiet_def intro: exI [of _ "[]"])

lemma quiet_trans: "quiet w w1 \<Longrightarrow> quiet w1 w2 \<Longrightarrow> quiet w w2"
  by (auto simp: quiet_def)

lemma quiet_emit [simp]: "quiet w (emit e w)"
  by (auto simp: quiet_def emit_def)

lemma quiet_emit_right: "quiet w w1 \<Longrightarrow> quiet w (emit e w1)"
  by (auto simp: quiet_def emit_def)

lemma quiet_fields:
  assumes "quiet w w'"
  shows "dirents w' = dirents w" "inodes w' = inodes w" "next_ino w' = next_ino w"
    "now w' = now w" "denied w' = denied w" "stderr w' = stderr w"
    "lookup w' p = lookup w p" "\<exists>es. trace w' = trace w @ es"
  using assms by (auto simp: quiet_def lookup_def)

lemma quiet_os_Lstat: "quiet w (snd (os_Lstat p w))"
  by (simp add: os_Lstat_def split: option.splits)

lemma quiet_os_Chmod: "quiet w (snd (os_Chmod p m w))"
  by (simp add: os_Chmod_def Let_def)

lemma quiet_file_Close: "quiet w (snd (snd (file_Close fp w)))"
  by (simp add: file_Close_def split: option.splits)

lemma quiet_file_Stat: "quiet w (snd (file_Stat h w))"
  by (simp add: file_Stat_def Let_def)

lemma quiet_os_Open: "quiet w (snd (os_Open p w))"
  by (simp add: os_Open_def Let_def split: option.splits)

lemma read_none: "min 32768 (length rest) = 0 \<longleftrightarrow> rest = []"
  by (cases rest) simp_all

lemma quiet_lines_loop: "quiet w (snd (lines_loop fd rest c w))"
proof (induction fd rest c w rule: lines_loop.induct)
  case (1 fd rest count w)
  let ?ev = "FileRead (fname fd)"
  let ?c = "min 32768 (length rest)"
  show ?case
  proof (cases "\<not> denied w ?ev \<and> \<not> is_dir (inodes w (fino fd)) \<and> ?c \<noteq> 0")
    case True
    then have a: "\<not> denied w ?ev" and b: "\<not> is_dir (inodes w (fino fd))" and c: "?c \<noteq> 0"
      by blast+
    have "quiet (emit ?ev w) (snd (lines_loop fd (drop ?c rest)
                 (count + of_nat (bytes_Count (take ?c rest))) (emit ?ev w)))"
      by (rule 1 [OF refl refl a b refl c])
    then have "quiet w (snd (lines_loop fd (drop ?c rest)
                 (count + of_nat (bytes_Count (take ?c rest))) (emit ?ev w)))"
      using quiet_trans quiet_emit by blast
    then show ?thesis
      using a b c by (subst lines_loop.simps) (simp add: Let_def read_none)
  next
    case False
    then show ?thesis
      by (subst lines_loop.simps) (auto simp: Let_def read_none)
  qed
qed

lemma quiet_lines: "quiet w (snd (lines f w))"
proof (cases "os_Open (Filename f) w")
  case (Pair r w1)
  have q1: "quiet w w1"
    using quiet_os_Open [of w "Filename f"] Pair by simp
  show ?thesis
  proof (cases r)
    case (Inl e)
    then show ?thesis using Pair q1 by (simp add: lines_def)
  next
    case (Inr fd)
    let ?c = "content (inodes w1 (fino fd))"
    have "quiet w1 (snd (lines_loop fd ?c 0 w1))"
      by (rule quiet_lines_loop)
    moreover have "quiet (snd (lines_loop fd ?c 0 w1))
        (snd (snd (file_Close (Some fd) (snd (lines_loop fd ?c 0 w1)))))"
      by (rule quiet_file_Close)
    ultimately have "quiet w (snd (snd (file_Close (Some fd) (snd (lines_loop fd ?c 0 w1)))))"
      using q1 quiet_trans by blast
    then show ?thesis
      using Pair Inr by (auto simp: lines_def split: prod.splits)
  qed
qed

section \<open>Opening the log file: what \<open>createLogFile\<close> and \<open>newFile\<close> establish\<close>

lemma kept_refl [simp]: "kept p w w"
  by (simp add: kept_def)

lemma kept_trans: "kept p w w1 \<Longrightarrow> kept p w1 w2 \<Longrightarrow> kept p w w2"
  by (auto simp: kept_def)

lemma quiet_kept: "quiet w w' \<Longrightarrow> kept p w w'"
  by (auto simp: quiet_def kept_def lookup_def)

lemma lookup_update:
  "lookup (w\<lparr>dirents := AList.update p i (dirents w)\<rparr>) q = (if q = p then Some i else lookup w q)"
  by (simp add: lookup_def update_conv')

lemma lookup_delete:
  "lookup (w\<lparr>dirents := AList.delete p (dirents w)\<rparr>) q = (if q = p then None else lookup w q)"
  by (simp add: lookup_def delete_conv')

text \<open>The handle and the world a successful \<^verbatim>\<open>os.OpenFile\<close> gives.\<close>

lemma os_OpenFile_Inr:
  assumes "os_OpenFile p m w = (Inr h, w1)"
  shows "\<not> closed h \<and> fname h = p \<and> lookup w1 p = Some (fino h) \<and>
         \<not> is_dir (inodes w1 (fino h)) \<and> kept p w w1 \<and> \<not> denied w (OsOpenFile p m) \<and>
         (case lookup w p of
            Some i \<Rightarrow> fino h = i \<and> inodes w1 = inodes w \<and> dirents w1 = dirents w
          | None \<Rightarrow> content (inodes w1 (fino h)) = [])"
  using assms
  by (auto simp: os_OpenFile_def Let_def kept_def emit_def lookup_def update_conv'
      split: option.splits if_splits)

lemma os_OpenFile_Inl:
  assumes "os_OpenFile p m w = (Inl e, w1)"
  shows "w1 = emit (OsOpenFile p m) w \<and>
         (denied w (OsOpenFile p m) \<or> (\<exists>i. lookup w p = Some i \<and> is_dir (inodes w i)))"
  using assms
  by (auto simp: os_OpenFile_def Let_def split: option.splits if_splits)

lemma os_OpenFile_denied:
  "denied w (OsOpenFile p m) \<Longrightarrow>
   os_OpenFile p m w = (Inl (OSError (OsOpenFile p m)), emit (OsOpenFile p m) w)"
  by (simp add: os_OpenFile_def Let_def)

lemma os_OpenFile_ok:
  assumes "\<not> denied w (OsOpenFile p m)" and "\<forall>i. lookup w p = Some i \<longrightarrow> \<not> is_dir (inodes w i)"
  shows "\<exists>h w1. os_OpenFile p m w = (Inr h, w1)"
  using assms by (auto simp: os_OpenFile_def Let_def split: option.splits)

lemma createLogFile_Inr:
  assumes "createLogFile f w = (Inr h, w1)"
  shows "\<not> closed h \<and> fname h = Filename f \<and> lookup w1 (Filename f) = Some (fino h) \<and>
         \<not> is_dir (inodes w1 (fino h)) \<and> kept (Filename f) w w1 \<and>
         (\<exists>perm. ParseInt8 (PermitMask f) = Inr perm) \<and>
         (case lookup w (Filename f) of
            Some i \<Rightarrow> fino h = i \<and> inodes w1 = inodes w \<and> dirents w1 = dirents w
          | None \<Rightarrow> content (inodes w1 (fino h)) = [])"
proof -
  from assms obtain perm where perm: "ParseInt8 (PermitMask f) = Inr perm"
    by (auto simp: createLogFile_def split: sum.splits)
  from assms perm obtain w0 where
    o: "os_OpenFile (Filename f) (FileMode perm) w = (Inr h, w0)" and
    c: "os_Chmod (Filename f) (FileMode perm) w0 = (None, w1)"
    by (auto simp: createLogFile_def split: sum.splits prod.splits option.splits)
  have q: "quiet w0 w1"
    using quiet_os_Chmod [of w0 "Filename f" "FileMode perm"] c by simp
  note o' = os_OpenFile_Inr [OF o]
  have "kept (Filename f) w w1"
    using o' quiet_kept [OF q] kept_trans by blast
  moreover have "case lookup w (Filename f) of
            Some i \<Rightarrow> fino h = i \<and> inodes w1 = inodes w \<and> dirents w1 = dirents w
          | None \<Rightarrow> content (inodes w1 (fino h)) = []"
    using o' quiet_fields [OF q] by (auto split: option.splits)
  ultimately show ?thesis
    using o' quiet_fields [OF q] perm by auto
qed

lemma createLogFile_Inl:
  assumes "createLogFile f w = (Inl e, w1)"
  shows "kept (Filename f) w w1"
proof (cases "ParseInt8 (PermitMask f)")
  case (Inl a)
  then show ?thesis using assms by (simp add: createLogFile_def)
next
  case (Inr perm)
  obtain r w0 where o: "os_OpenFile (Filename f) (FileMode perm) w = (r, w0)"
    by (cases "os_OpenFile (Filename f) (FileMode perm) w")
  show ?thesis
  proof (cases r)
    case (Inl e')
    then show ?thesis
      using assms Inr o os_OpenFile_Inl [of "Filename f" "FileMode perm" w e' w0]
      by (auto simp: createLogFile_def quiet_kept)
  next
    case r: (Inr h)
    have "w1 = snd (os_Chmod (Filename f) (FileMode perm) w0)"
      using assms Inr o r by (auto simp: createLogFile_def split: prod.splits option.splits)
    then have "quiet w0 w1"
      using quiet_os_Chmod by simp
    then show ?thesis
      using os_OpenFile_Inr [of "Filename f" "FileMode perm" w h w0] o r quiet_kept kept_trans
      by blast
  qed
qed

lemma createLogFile_denied:
  assumes "ParseInt8 (PermitMask f) = Inr perm"
    and "denied w (OsOpenFile (Filename f) (FileMode perm))"
  shows "createLogFile f w = (Inl (OSError (OsOpenFile (Filename f) (FileMode perm))),
                              emit (OsOpenFile (Filename f) (FileMode perm)) w)"
  using assms by (simp add: createLogFile_def os_OpenFile_denied)

lemma createLogFile_ok:
  assumes "ParseInt8 (PermitMask f) = Inr perm"
    and "\<not> denied w (OsOpenFile (Filename f) (FileMode perm))"
    and "\<not> denied w (OsChmod (Filename f) (FileMode perm))"
    and "\<forall>i. lookup w (Filename f) = Some i \<longrightarrow> \<not> is_dir (inodes w i)"
  shows "\<exists>h w1. createLogFile f w = (Inr h, w1)"
proof -
  obtain h w0 where o: "os_OpenFile (Filename f) (FileMode perm) w = (Inr h, w0)"
    using os_OpenFile_ok [OF assms(2,4)] by blast
  note o' = os_OpenFile_Inr [OF o]
  have "denied w0 = denied w" "lookup w0 (Filename f) \<noteq> None"
    using o' by (auto simp: kept_def)
  then have "fst (os_Chmod (Filename f) (FileMode perm) w0) = None"
    using assms(3) by (auto simp: os_Chmod_def Let_def)
  then show ?thesis
    using assms(1) o by (auto simp: createLogFile_def split: prod.splits option.splits)
qed

lemma createLogFile_trace:
  assumes "ParseInt8 (PermitMask f) = Inr perm"
  shows "OsOpenFile (Filename f) (FileMode perm) \<in> set (trace (snd (createLogFile f w)))"
proof -
  obtain r w0 where o: "os_OpenFile (Filename f) (FileMode perm) w = (r, w0)"
    by (cases "os_OpenFile (Filename f) (FileMode perm) w")
  have t0: "OsOpenFile (Filename f) (FileMode perm) \<in> set (trace w0)"
    using o by (auto simp: os_OpenFile_def Let_def emit_def split: option.splits if_splits)
  have "\<exists>es. trace (snd (os_Chmod (Filename f) (FileMode perm) w0)) = trace w0 @ es"
    using quiet_os_Chmod quiet_fields(8) by blast
  then have t1: "OsOpenFile (Filename f) (FileMode perm)
                   \<in> set (trace (snd (os_Chmod (Filename f) (FileMode perm) w0)))"
    using t0 by auto
  show ?thesis
    using assms o t0 t1
    by (cases r; cases "os_Chmod (Filename f) (FileMode perm) w0")
      (auto simp: createLogFile_def split: option.splits)
qed

lemma bytes_Count_append: "bytes_Count (xs @ ys) = bytes_Count xs + bytes_Count ys"
  by (simp add: bytes_Count_def)

lemma bytes_Count_take_drop: "bytes_Count (take n xs) + bytes_Count (drop n xs) = bytes_Count xs"
  using bytes_Count_append [of "take n xs" "drop n xs"] by simp

lemma bytes_Count_le: "bytes_Count xs \<le> length xs"
  by (simp add: bytes_Count_def)

text \<open>
  The loop of \<^verbatim>\<open>lines\<close> adds the number of newline bytes of what is left to read,
  whatever the number of reads, unless a read is refused.
\<close>

lemma lines_loop_count:
  assumes "\<not> denied w (FileRead (fname fd))" and "\<not> is_dir (inodes w (fino fd))"
  shows "fst (lines_loop fd rest c w) = (c + of_nat (bytes_Count rest), None)"
  using assms
proof (induction fd rest c w rule: lines_loop.induct)
  case (1 fd rest count w)
  let ?c = "min 32768 (length rest)"
  show ?case
  proof (cases "?c = 0")
    case True
    then have "rest = []" by (simp only: read_none)
    then show ?thesis
      using "1.prems" by (subst lines_loop.simps) (simp add: Let_def bytes_Count_def)
  next
    case False
    let ?w1 = "emit (FileRead (fname fd)) w"
    have p: "\<not> denied ?w1 (FileRead (fname fd))" "\<not> is_dir (inodes ?w1 (fino fd))"
      using "1.prems" by (simp_all add: emit_def)
    have "fst (lines_loop fd (drop ?c rest) (count + of_nat (bytes_Count (take ?c rest))) ?w1)
            = (count + of_nat (bytes_Count (take ?c rest))
                 + of_nat (bytes_Count (drop ?c rest)), None)"
      by (rule "1.IH" [OF refl refl "1.prems" refl False p])
    also have "count + of_nat (bytes_Count (take ?c rest))
                 + of_nat (bytes_Count (drop ?c rest))
               = count + (of_nat (bytes_Count rest) :: goint)"
      using bytes_Count_take_drop [of ?c rest, symmetric] by (simp add: add.assoc)
    finally show ?thesis
      using False "1.prems" by (subst lines_loop.simps) (simp add: Let_def read_none)
  qed
qed

lemma lines_loop_refused:
  assumes "denied w (FileRead (fname fd)) \<or> is_dir (inodes w (fino fd))"
  shows "\<exists>e. fst (lines_loop fd rest c w) = (c, Some e)"
  using assms by (subst lines_loop.simps) (auto simp: Let_def)

lemma lines_count:
  assumes "lines f w = ((count, None), w')" and "lookup w (Filename f) = Some i"
  shows "count = of_nat (bytes_Count (content (inodes w i)))"
proof -
  from assms obtain fd w1 where o: "os_Open (Filename f) w = (Inr fd, w1)"
    by (auto simp: lines_def split: prod.splits sum.splits)
  then have fd: "fino fd = i" and w1: "w1 = emit (OsOpen (Filename f)) w"
    using assms(2) by (auto simp: os_Open_def Let_def split: if_splits)
  let ?c = "content (inodes w1 (fino fd))"
  have l: "fst (lines_loop fd ?c 0 w1) = (count, None)"
    using assms(1) o by (auto simp: lines_def split: prod.splits)
  have "\<not> (denied w1 (FileRead (fname fd)) \<or> is_dir (inodes w1 (fino fd)))"
    using lines_loop_refused [of w1 fd ?c 0] l by auto
  then have "fst (lines_loop fd ?c 0 w1) = (0 + of_nat (bytes_Count ?c), None)"
    by (intro lines_loop_count) simp_all
  then show ?thesis
    using l fd w1 by (simp add: emit_def)
qed

lemma same_config_fields:
  assumes "same_config f f'"
  shows "Filename f' = Filename f" "PermitMask f' = PermitMask f" "fileNameOnly f' = fileNameOnly f"
    "suffix f' = suffix f" "Append f' = Append f" "MaxLines f' = MaxLines f"
    "MaxSize f' = MaxSize f" "Daily f' = Daily f" "MaxDays f' = MaxDays f"
    "LogLevel f' = LogLevel f" "Level f' = Level f"
  by (subst assms [unfolded same_config_def], simp)+

lemma newFile_failed_open:
  "createLogFile f w = (Inl e, w1) \<Longrightarrow> newFile f w = (Some e, f, w1)"
  by (simp add: newFile_def)

text \<open>
  Once \<open>createLogFile\<close> has given a handle, \<open>newFile\<close> installs it whatever follows,
  and from there on only the trace grows.
\<close>

lemma newFile_opened:
  assumes "createLogFile f w = (Inr h, w1)" and "newFile f w = (r, f', w')"
  shows "fileWriter f' = Some h \<and> quiet w1 w' \<and> same_config f f' \<and>
         (r = None \<longrightarrow>
            maxSizeCurSize f' = of_nat (length (content (inodes w1 (fino h)))) \<and>
            maxLinesCurLines f' =
              (if 0 <s maxSizeCurSize f' then of_nat (bytes_Count (content (inodes w1 (fino h))))
               else 0) \<and>
            dailyOpenTime f' = now w \<and> dailyOpenDate f' = Day (now w))"
proof -
  note c = createLogFile_Inr [OF assms(1)]
  define w2 where "w2 = (if fileWriter f \<noteq> None then snd (snd (file_Close (fileWriter f) w1)) else w1)"
  have q2: "quiet w1 w2"
    by (simp add: w2_def quiet_file_Close)
  obtain sr w3 where st: "file_Stat h w2 = (sr, w3)"
    by (cases "file_Stat h w2")
  have q3: "quiet w2 w3"
    using quiet_file_Stat [of w2 h] st by simp
  have q13: "quiet w1 w3"
    using q2 q3 quiet_trans by blast
  have nf: "newFile f w =
     (case sr of
        Inl err \<Rightarrow> (Some (GetStatErr err), f\<lparr>fileWriter := Some h\<rparr>, w3)
      | Inr fInfo \<Rightarrow>
          (let f5 = f\<lparr>fileWriter := Some h, maxSizeCurSize := fi_size fInfo,
                      dailyOpenTime := now w3, dailyOpenDate := Day (now w3),
                      maxLinesCurLines := 0\<rparr>
           in if 0 <s fi_size fInfo then
                (case lines f5 w3 of
                   ((count, Some err), w4) \<Rightarrow> (Some err, f5, w4)
                 | ((count, None), w4) \<Rightarrow> (None, f5\<lparr>maxLinesCurLines := count\<rparr>, w4))
              else (None, f5, w3)))"
    using assms(1) st by (cases sr) (simp_all add: newFile_def w2_def Let_def)
  show ?thesis
  proof (cases sr)
    case (Inl err)
    then show ?thesis
      using assms(2) nf q13 by (auto simp: same_config_def)
  next
    case (Inr fInfo)
    have fi: "fInfo = info_of (inodes w1 (fino h))"
      using st Inr quiet_fields(2) [OF q2] by (auto simp: file_Stat_def Let_def split: if_splits)
    let ?f5 = "f\<lparr>fileWriter := Some h, maxSizeCurSize := fi_size fInfo,
                  dailyOpenTime := now w3, dailyOpenDate := Day (now w3),
                  maxLinesCurLines := 0\<rparr>"
    have now3: "now w3 = now w"
      using quiet_fields(4) [OF q13] c by (simp add: kept_def)
    show ?thesis
    proof (cases "0 <s fi_size fInfo")
      case False
      then show ?thesis
        using assms(2) nf Inr q13 fi now3 by (auto simp: same_config_def info_of_def)
    next
      case True
      obtain count lerr w4 where l: "lines ?f5 w3 = ((count, lerr), w4)"
        by (cases "lines ?f5 w3") auto
      have q4: "quiet w3 w4"
        using quiet_lines [of w3 ?f5] l by simp
      have q14: "quiet w1 w4"
        using q13 q4 quiet_trans by blast
      have lk: "lookup w3 (Filename ?f5) = Some (fino h)"
        using c quiet_fields(7) [OF q13] by simp
      show ?thesis
      proof (cases lerr)
        case None
        have "count = of_nat (bytes_Count (content (inodes w3 (fino h))))"
          using lines_count [OF l [unfolded None] lk] .
        then have "count = of_nat (bytes_Count (content (inodes w1 (fino h))))"
          using quiet_fields(2) [OF q13] by simp
        then show ?thesis
          using assms(2) nf Inr True l None q14 fi now3
          by (auto simp: same_config_def info_of_def Let_def)
      next
        case (Some err)
        then show ?thesis
          using assms(2) nf Inr True l q14 by (auto simp: same_config_def Let_def)
      qed
    qed
  qed
qed

lemma newFile_kept:
  assumes "newFile f w = (r, f', w')"
  shows "kept (Filename f) w w' \<and> same_config f f'"
proof (cases "createLogFile f w")
  case (Pair cr w1)
  show ?thesis
  proof (cases cr)
    case (Inl e)
    then show ?thesis
      using assms Pair newFile_failed_open [of f w e w1] createLogFile_Inl [of f w e w1]
      by (auto simp: same_config_def)
  next
    case (Inr h)
    then show ?thesis
      using newFile_opened [OF _ assms, of h w1] Pair createLogFile_Inr [of f w h w1]
        quiet_kept kept_trans by blast
  qed
qed

section \<open>Initialization against an existing file\<close>

lemma sint_of_nat_small:
  assumes "n < 2 ^ 63"
  shows "sint (of_nat n :: goint) = int n"
proof -
  have "sint (of_nat n :: goint) = signed_take_bit 63 (int n)"
    by (simp add: signed_of_nat)
  also have "\<dots> = int n"
  proof (rule signed_take_bit_int_eq_self)
    show "- (2 ^ 63) \<le> int n" by (rule order_trans [of _ 0]) simp_all
    have "int n < int (2 ^ 63)" using assms by (simp only: of_nat_less_iff)
    then show "int n < 2 ^ 63" by simp
  qed
  finally show ?thesis .
qed

lemma pos_of_nat_small:
  assumes "n < 2 ^ 63"
  shows "0 <s (of_nat n :: goint) \<longleftrightarrow> n \<noteq> 0"
  using sint_of_nat_small [OF assms] by (simp add: word_sless_alt)

lemma bytes_Count_whole_lines:
  assumes "\<forall>l\<in>set ls. newline \<notin> set l"
  shows "bytes_Count (whole_lines ls) = length ls"
  using assms
proof (induction ls)
  case Nil
  then show ?case by (simp add: whole_lines_def bytes_Count_def)
next
  case (Cons l ls)
  have "filter (\<lambda>c. c = newline) l = []"
    using Cons.prems by (auto simp: filter_empty_conv)
  then have "bytes_Count (l @ [newline]) = 1"
    by (simp add: bytes_Count_def)
  moreover have "whole_lines (l # ls) = (l @ [newline]) @ whole_lines ls"
    by (simp add: whole_lines_def)
  ultimately show ?case
    using Cons by (simp only: bytes_Count_append) simp
qed

text \<open>A successful \<open>newFile\<close> leaves an open handle on the name and counters read from the file.\<close>

lemma newFile_success:
  assumes "newFile f w = (None, f', w')"
  shows "\<exists>h. fileWriter f' = Some h \<and> \<not> closed h \<and> lookup w' (Filename f) = Some (fino h) \<and>
           same_config f f' \<and>
           (case lookup w (Filename f) of
              None \<Rightarrow> maxSizeCurSize f' = 0 \<and> maxLinesCurLines f' = 0
            | Some i \<Rightarrow>
                fino h = i \<and>
                maxSizeCurSize f' = of_nat (length (content (inodes w i))) \<and>
                maxLinesCurLines f' =
                  (if 0 <s maxSizeCurSize f' then of_nat (bytes_Count (content (inodes w i)))
                   else 0))"
proof (cases "createLogFile f w")
  case (Pair cr w1)
  show ?thesis
  proof (cases cr)
    case (Inl e)
    then show ?thesis
      using newFile_failed_open [of f w e w1] Pair assms by simp
  next
    case (Inr h)
    then have cl: "createLogFile f w = (Inr h, w1)"
      using Pair by simp
    note c = createLogFile_Inr [OF cl]
    note o = newFile_opened [OF cl assms]
    have q: "quiet w1 w'"
      using o by simp
    have "lookup w' (Filename f) = Some (fino h)"
      using c quiet_fields(7) [OF q] by simp
    moreover have "case lookup w (Filename f) of
              None \<Rightarrow> maxSizeCurSize f' = 0 \<and> maxLinesCurLines f' = 0
            | Some i \<Rightarrow>
                fino h = i \<and>
                maxSizeCurSize f' = of_nat (length (content (inodes w i))) \<and>
                maxLinesCurLines f' =
                  (if 0 <s maxSizeCurSize f' then of_nat (bytes_Count (content (inodes w i)))
                   else 0)"
      using c o by (auto split: option.splits simp: word_sless_alt)
    ultimately show ?thesis
      using c o by simp
  qed
qed

lemma Init_newFile:
  assumes "Init decode LevelMap cfg f w = (r, f', w')" and "cfg \<noteq> []" and "r = None"
  shows "\<exists>f5. newFile f5 w = (None, f', w') \<and>
               Filename f5 = keep (jFilename (snd (decode cfg))) (Filename f)"
  using assms
  by (auto simp: Init_def Let_def store_fields_def split: option.splits if_splits)

text \<open>A logger that initialization has opened has a permission mask that parses.\<close>

lemma Init_perm:
  assumes "Init decode LevelMap cfg f w = (None, f', w')" and "cfg \<noteq> []"
  shows "\<exists>perm. ParseInt8 (PermitMask f') = Inr perm"
proof -
  obtain f5 where nf: "newFile f5 w = (None, f', w')"
    using Init_newFile [OF assms refl] by blast
  obtain cr w1 where cl: "createLogFile f5 w = (cr, w1)"
    by (cases "createLogFile f5 w")
  show ?thesis
  proof (cases cr)
    case (Inl e)
    then show ?thesis
      using newFile_failed_open [of f5 w e w1] cl nf by simp
  next
    case (Inr h)
    then have "\<exists>perm. ParseInt8 (PermitMask f5) = Inr perm"
      using createLogFile_Inr [of f5 w h w1] cl by simp
    moreover have "PermitMask f' = PermitMask f5"
      using newFile_kept [OF nf] same_config_fields(2) by blast
    ultimately show ?thesis by simp
  qed
qed

lemma ex_Init_ok: "fst (Init ex_decode Map.empty ex_config ex_registered ex_world) = None \<and>
    Filename (fst (snd (Init ex_decode Map.empty ex_config ex_registered ex_world))) = ''log/app.log''"
  unfolding ex_registered_def ex_config_def ex_decode_def ex_defs
  by (simp add: Init_def store_fields_def keep_def os_defs lib_defs logger_defs Let_def)

text \<open>
  C5. When initialization succeeds, the logger holds an open handle on the file of the
  configured name. If the file was not there the counters are 0. If it was there, the
  byte size is its length, and, for a file shorter than \<open>2^63\<close> bytes, the line count is
  the number of newline bytes of its content: 0 for an empty file, and \<open>K\<close> for a file
  of \<open>K\<close> newline-terminated lines. The code does this whatever \<open>append\<close> is.
\<close>

theorem Init_line_count:
  assumes "Init decode LevelMap cfg f w = (None, f', w')" and "cfg \<noteq> []"
  shows "usable f' \<and> map_option fino (fileWriter f') = lookup w' (Filename f') \<and>
     (case lookup w (Filename f') of
        None \<Rightarrow> maxLinesCurLines f' = 0 \<and> maxSizeCurSize f' = 0
      | Some i \<Rightarrow>
          maxSizeCurSize f' = of_nat (length (content (inodes w i))) \<and>
          (length (content (inodes w i)) < 2 ^ 63 \<longrightarrow>
             sint (maxLinesCurLines f') = int (bytes_Count (content (inodes w i))) \<and>
             (content (inodes w i) = [] \<longrightarrow> maxLinesCurLines f' = 0) \<and>
             (\<forall>ls. content (inodes w i) = whole_lines ls \<and> (\<forall>l\<in>set ls. newline \<notin> set l) \<longrightarrow>
                sint (maxLinesCurLines f') = int (length ls))))"
proof -
  obtain f5 where nf: "newFile f5 w = (None, f', w')"
    using Init_newFile [OF assms refl] by blast
  then obtain h where h: "fileWriter f' = Some h" "\<not> closed h"
      "lookup w' (Filename f5) = Some (fino h)" "same_config f5 f'"
    and cnt: "case lookup w (Filename f5) of
              None \<Rightarrow> maxSizeCurSize f' = 0 \<and> maxLinesCurLines f' = 0
            | Some i \<Rightarrow>
                fino h = i \<and>
                maxSizeCurSize f' = of_nat (length (content (inodes w i))) \<and>
                maxLinesCurLines f' =
                  (if 0 <s maxSizeCurSize f' then of_nat (bytes_Count (content (inodes w i)))
                   else 0)"
    using newFile_success [OF nf] by blast
  have fn: "Filename f' = Filename f5"
    using same_config_fields(1) [OF h(4)] .
  have a: "usable f' \<and> map_option fino (fileWriter f') = lookup w' (Filename f')"
    using h fn by (simp add: usable_def)
  show ?thesis
  proof (cases "lookup w (Filename f')")
    case None
    then show ?thesis
      using a cnt fn by simp
  next
    case (Some i)
    let ?c = "content (inodes w i)"
    have sz: "maxSizeCurSize f' = of_nat (length ?c)"
      and ln: "maxLinesCurLines f' = (if 0 <s maxSizeCurSize f' then of_nat (bytes_Count ?c) else 0)"
      using cnt Some fn by simp_all
    have b: "sint (maxLinesCurLines f') = int (bytes_Count ?c) \<and>
             (?c = [] \<longrightarrow> maxLinesCurLines f' = 0) \<and>
             (\<forall>ls. ?c = whole_lines ls \<and> (\<forall>l\<in>set ls. newline \<notin> set l) \<longrightarrow>
                sint (maxLinesCurLines f') = int (length ls))"
      if small: "length ?c < 2 ^ 63"
    proof -
      have bc: "bytes_Count ?c < 2 ^ 63"
        using bytes_Count_le [of ?c] small by simp
      have "maxLinesCurLines f' = of_nat (bytes_Count ?c)"
      proof (cases "?c = []")
        case True
        then show ?thesis using ln sz by (simp add: bytes_Count_def)
      next
        case False
        then show ?thesis using ln sz pos_of_nat_small [OF small] by simp
      qed
      then have s: "sint (maxLinesCurLines f') = int (bytes_Count ?c)"
        using sint_of_nat_small [OF bc] by simp
      moreover have "maxLinesCurLines f' = 0" if "?c = []"
        using that \<open>maxLinesCurLines f' = of_nat (bytes_Count ?c)\<close> by (simp add: bytes_Count_def)
      moreover have "sint (maxLinesCurLines f') = int (length ls)"
        if "?c = whole_lines ls \<and> (\<forall>l\<in>set ls. newline \<notin> set l)" for ls
        using s that bytes_Count_whole_lines [of ls] by simp
      ultimately show ?thesis by blast
    qed
    show ?thesis
      unfolding Some option.case using a sz b by blast
  qed
qed

theorem Init_line_count_witness:
  "content (inodes ex_world 2) = whole_lines [''abc''] \<and>
   sint (maxLinesCurLines (fst (snd (Init ex_decode Map.empty ex_config ex_registered ex_world)))) = 1 \<and>
   maxSizeCurSize (fst (snd (Init ex_decode Map.empty ex_config ex_registered ex_world))) = 4"
proof -
  let ?I = "Init ex_decode Map.empty ex_config ex_registered ex_world"
  have i: "?I = (None, fst (snd ?I), snd (snd ?I))"
    using ex_Init_ok by (metis prod.collapse)
  have c: "ex_config \<noteq> []"
    by (simp add: ex_config_def)
  have l: "lookup ex_world (Filename (fst (snd ?I))) = Some 2"
    using ex_Init_ok by (simp add: lookup_def ex_defs)
  have w: "content (inodes ex_world 2) = whole_lines [''abc'']"
    "\<forall>l\<in>set [''abc'']. newline \<notin> set l" "length (content (inodes ex_world 2)) < 2 ^ 63"
    by (simp_all add: whole_lines_def ex_defs newline_def)
  have "sint (maxLinesCurLines (fst (snd ?I))) = int (length [''abc''])"
    using Init_line_count [OF i c] w unfolding l option.case by blast
  moreover have "maxSizeCurSize (fst (snd ?I)) = of_nat (length (content (inodes ex_world 2)))"
    using Init_line_count [OF i c] unfolding l option.case by blast
  ultimately show ?thesis
    using w(1) by (simp add: ex_defs)
qed

section \<open>What a rotation does\<close>

lemma RestartLogger_eq:
  "newFile f w = (r0, f1, w1) \<Longrightarrow>
   RestartLogger f w = (map_option RotateStartLogger r0, f1, emit GoDeleteOldLog w1)"
  by (cases r0) (simp_all add: RestartLogger_def)

lemma RestartLogger_kept:
  assumes "RestartLogger f w = (r, f', w')"
  shows "kept (Filename f) w w' \<and> same_config f f'"
proof -
  obtain r0 f1 w1 where n: "newFile f w = (r0, f1, w1)"
    by (cases "newFile f w")
  have "kept (Filename f) w1 (emit GoDeleteOldLog w1)"
    by (simp add: quiet_kept)
  then show ?thesis
    using newFile_kept [OF n] RestartLogger_eq [OF n] assms kept_trans by auto
qed

lemma file_Close_eq:
  "file_Close (fileWriter f) w =
     (fst (file_Close (fileWriter f) w),
      (case fileWriter f of None \<Rightarrow> None | Some h \<Rightarrow> Some (h\<lparr>closed := True\<rparr>)),
      w\<lparr>trace := trace w @ closing f\<rparr>)"
  by (auto simp: file_Close_def closing_def emit_def split: option.splits)


lemma probes_first_free:
  assumes "first_free w f date = Some k"
  shows "probe f date None 1 [] (emit (OsLstat (Filename f)) w) =
           ((Some (ErrNotExist (OsLstat (archive_name f date k))), Suc k, archive_name f date k),
            probed w f date k)"
proof -
  note ff = first_free_Some [OF assms]
  have "probe f date None 1 [] (emit (OsLstat (Filename f)) w) =
     ((Some (ErrNotExist (OsLstat (archive_name f date k))), Suc k, archive_name f date k),
      (emit (OsLstat (Filename f)) w)\<lparr>trace := trace (emit (OsLstat (Filename f)) w) @
          map (\<lambda>n. OsLstat (archive_name f date n)) [1..<Suc k]\<rparr>)"
    using ff by (intro probe_found) simp_all
  then show ?thesis
    by (simp add: probed_def emit_def)
qed

lemma createFreshFile_probe:
  assumes "ParseInt8 (PermitMask f) = Inr perm" and "lookup w (Filename f) = Some i"
  shows "createFreshFile logTime f w =
     (case probe f (stamp f logTime) None 1 [] (emit (OsLstat (Filename f)) w) of
        ((None, num, fName), w2) \<Rightarrow> (Some (NoFreeLogNumber (Filename f)), f, w2)
      | ((Some e, num, fName), w2) \<Rightarrow>
          (case file_Close (fileWriter f) w2 of
             (cerr, fw, w3) \<Rightarrow>
               (case os_Rename (Filename f) fName w3 of
                  (Some err, w4) \<Rightarrow>
                    RestartLogger (f\<lparr>fileWriter := fw\<rparr>)
                      (w4\<lparr>stderr := stderr w4 @ [RenameReport (Filename f) fName err]\<rparr>)
                | (None, w4) \<Rightarrow>
                    (case os_Chmod fName (FileMode perm) w4 of
                       (Some err, w5) \<Rightarrow> (Some (RotateErr err), f\<lparr>fileWriter := fw\<rparr>, w5)
                     | (None, w5) \<Rightarrow> RestartLogger (f\<lparr>fileWriter := fw\<rparr>) w5))))"
proof -
  have d: "(if dailyOpenDate f \<noteq> Day logTime
            then probe f (Format_date (dailyOpenTime f)) None 1 [] w1
            else probe f (Format_date logTime) None 1 [] w1)
           = probe f (stamp f logTime) None 1 [] w1" for w1
    by (auto simp: stamp_def)
  show ?thesis
    using assms unfolding createFreshFile_def d
    by (simp add: os_Lstat_present Let_def split: prod.splits option.splits)
qed


lemma createFreshFile_found:
  assumes "ParseInt8 (PermitMask f) = Inr perm" and "lookup w (Filename f) = Some i"
    and "first_free w f (stamp f logTime) = Some k"
  shows "createFreshFile logTime f w =
     (let fName = archive_name f (stamp f logTime) k;
          f1 = f\<lparr>fileWriter := (case fileWriter f of None \<Rightarrow> None
                                  | Some h \<Rightarrow> Some (h\<lparr>closed := True\<rparr>))\<rparr>;
          w3 = (probed w f (stamp f logTime) k)\<lparr>trace :=
                  trace (probed w f (stamp f logTime) k) @ closing f\<rparr>
      in case os_Rename (Filename f) fName w3 of
           (Some err, w4) \<Rightarrow>
             RestartLogger f1 (w4\<lparr>stderr := stderr w4 @ [RenameReport (Filename f) fName err]\<rparr>)
         | (None, w4) \<Rightarrow>
             (case os_Chmod fName (FileMode perm) w4 of
                (Some err, w5) \<Rightarrow> (Some (RotateErr err), f1, w5)
              | (None, w5) \<Rightarrow> RestartLogger f1 w5))"
  unfolding createFreshFile_probe [OF assms(1,2)] probes_first_free [OF assms(3)]
  by (subst file_Close_eq) (simp add: Let_def)

lemma newFile_trace_open:
  assumes "ParseInt8 (PermitMask f) = Inr perm" and "newFile f w = (r, f', w')"
  shows "OsOpenFile (Filename f) (FileMode perm) \<in> set (trace w')"
proof (cases "createLogFile f w")
  case (Pair cr w1)
  have t1: "OsOpenFile (Filename f) (FileMode perm) \<in> set (trace w1)"
    using createLogFile_trace [OF assms(1), of w] Pair by simp
  show ?thesis
  proof (cases cr)
    case (Inl e)
    then show ?thesis
      using newFile_failed_open [of f w e w1] Pair assms(2) t1 by simp
  next
    case (Inr h)
    then have "quiet w1 w'"
      using newFile_opened [OF _ assms(2), of h w1] Pair by simp
    then show ?thesis
      using t1 quiet_fields(8) by fastforce
  qed
qed

lemma os_Rename_denied:
  "denied w (OsRename a b) \<Longrightarrow>
   os_Rename a b w = (Some (OSError (OsRename a b)), emit (OsRename a b) w)"
  by (simp add: os_Rename_def Let_def)

lemma os_Rename_ok:
  "\<not> denied w (OsRename a b) \<Longrightarrow> lookup w a = Some i \<Longrightarrow>
   os_Rename a b w =
     (None, (emit (OsRename a b) w)\<lparr>dirents := AList.update b i (AList.delete a (dirents w))\<rparr>)"
  by (simp add: os_Rename_def Let_def)

lemma os_Rename_trace:
  "trace (snd (os_Rename a b w)) = trace w @ [OsRename a b]"
  by (auto simp: os_Rename_def Let_def emit_def split: option.splits)

lemma lookup_renamed:
  "lookup ((emit e w)\<lparr>dirents := AList.update b i (AList.delete a (dirents w))\<rparr>) b = Some i"
  by (simp add: lookup_def update_conv')

text \<open>
  What every rotation that finds a free archival name does first: the probes, the close
  of the handle and the rename to that name; and where the rename leaves the file.
\<close>

lemma createFreshFile_rename:
  assumes "ParseInt8 (PermitMask f) = Inr perm" and "lookup w (Filename f) = Some i"
    and "first_free w f (stamp f logTime) = Some k"
    and "createFreshFile logTime f w = (r, f', w')"
  shows "(\<exists>es. trace w' = trace (probed w f (stamp f logTime) k) @ closing f @
                  OsRename (Filename f) (archive_name f (stamp f logTime) k) # es) \<and>
         (\<not> denied w (OsRename (Filename f) (archive_name f (stamp f logTime) k)) \<longrightarrow>
            lookup w' (archive_name f (stamp f logTime) k) = Some i)"
proof -
  let ?A = "archive_name f (stamp f logTime) k"
  let ?ev = "OsRename (Filename f) ?A"
  let ?f1 = "f\<lparr>fileWriter := (case fileWriter f of None \<Rightarrow> None
                                | Some h \<Rightarrow> Some (h\<lparr>closed := True\<rparr>))\<rparr>"
  let ?w3 = "(probed w f (stamp f logTime) k)\<lparr>trace :=
                  trace (probed w f (stamp f logTime) k) @ closing f\<rparr>"
  have ne: "?A \<noteq> Filename f"
    using first_free_Some [OF assms(3)] assms(2) by auto
  have w3: "denied ?w3 = denied w" "lookup ?w3 (Filename f) = Some i"
    using assms(2) by (simp_all add: probed_def lookup_def)
  obtain rr w4 where rn: "os_Rename (Filename f) ?A ?w3 = (rr, w4)"
    by (cases "os_Rename (Filename f) ?A ?w3")
  have t4: "trace w4 = trace ?w3 @ [?ev]"
    using os_Rename_trace [of "Filename f" ?A ?w3] rn by simp
  note cf = assms(4) [unfolded createFreshFile_found [OF assms(1-3)] Let_def rn]
  show ?thesis
  proof (cases "denied w ?ev")
    case True
    then have rr: "rr = Some (OSError ?ev)"
      using rn w3(1) os_Rename_denied [of ?w3 "Filename f" ?A] by simp
    let ?W = "w4\<lparr>stderr := stderr w4 @ [RenameReport (Filename f) ?A (OSError ?ev)]\<rparr>"
    have "RestartLogger ?f1 ?W = (r, f', w')"
      using cf rr by simp
    then have "\<exists>es. trace w' = trace ?W @ es"
      using RestartLogger_kept by (fastforce simp: kept_def)
    then show ?thesis
      using True t4 by auto
  next
    case False
    then have w4: "rr = None"
        "w4 = (emit ?ev ?w3)\<lparr>dirents := AList.update ?A i (AList.delete (Filename f) (dirents ?w3))\<rparr>"
      using rn w3 os_Rename_ok [of ?w3 "Filename f" ?A i] by simp_all
    have l4: "lookup w4 ?A = Some i"
      unfolding w4(2) by (rule lookup_renamed)
    obtain cr w5 where ch: "os_Chmod ?A (FileMode perm) w4 = (cr, w5)"
      by (cases "os_Chmod ?A (FileMode perm) w4")
    have q5: "quiet w4 w5"
      using quiet_os_Chmod [of w4 ?A "FileMode perm"] ch by simp
    have l5: "lookup w5 ?A = Some i" and t5: "\<exists>es. trace w5 = trace w4 @ es"
      using quiet_fields(7,8) [OF q5] l4 by simp_all
    show ?thesis
    proof (cases cr)
      case (Some err)
      then have "w' = w5"
        using cf w4(1) ch by simp
      then show ?thesis
        using l5 t5 t4 by auto
    next
      case None
      then have "RestartLogger ?f1 w5 = (r, f', w')"
        using cf w4(1) ch by simp
      then have "kept (Filename f) w5 w'"
        using RestartLogger_kept [of ?f1 w5 r f' w'] by simp
      then have "lookup w' ?A = lookup w5 ?A" "\<exists>es. trace w' = trace w5 @ es"
        using ne by (auto simp: kept_def)
      then show ?thesis
        using l5 t5 t4 by auto
    qed
  qed
qed



lemma first_free_eq:
  assumes "1 \<le> k" and "k \<le> 999" and "lookup w (archive_name f date k) = None"
    and "\<forall>n. 1 \<le> n \<and> n < k \<longrightarrow> lookup w (archive_name f date n) \<noteq> None"
  shows "first_free w f date = Some k"
proof -
  have "k - 1 < length [1..<1000::nat]" "[1..<1000] ! (k - 1) = k"
    using assms(1,2) by simp_all
  moreover have "\<forall>j<k - 1. lookup w (archive_name f date ([1..<1000] ! j)) \<noteq> None"
    using assms(2,4) by simp
  ultimately show ?thesis
    unfolding first_free_def find_Some_iff using assms(3) by (intro exI [of _ "k - 1"]) simp
qed

lemma ex_names:
  "archive_name ex_logger (stamp ex_logger ex_next_day) 1 = ''log/app.2021-03-01.001.log''"
  "archive_name ex_logger (stamp ex_logger ex_next_day) 2 = ''log/app.2021-03-01.002.log''"
  "archive_name ex_logger (stamp ex_logger ex_next_month) 1 = ''log/app.2021-04-01.001.log''"
  by code_simp+

lemma ex_first_free:
  "first_free ex_world ex_logger (stamp ex_logger ex_next_day) = Some 1"
  "first_free ex_world_second ex_logger (stamp ex_logger ex_next_day) = Some 2"
  "first_free ex_world ex_logger (stamp ex_logger ex_next_month) = Some 1"
  "first_free ex_world_norename ex_logger (stamp ex_logger ex_next_day) = Some 1"
proof -
  show "first_free ex_world ex_logger (stamp ex_logger ex_next_day) = Some 1"
  proof (rule first_free_eq)
    show "lookup ex_world (archive_name ex_logger (stamp ex_logger ex_next_day) 1) = None"
      unfolding ex_names by (simp add: lookup_def ex_defs)
  qed simp_all
  show "first_free ex_world ex_logger (stamp ex_logger ex_next_month) = Some 1"
  proof (rule first_free_eq)
    show "lookup ex_world (archive_name ex_logger (stamp ex_logger ex_next_month) 1) = None"
      unfolding ex_names by (simp add: lookup_def ex_defs)
  qed simp_all
  show "first_free ex_world_norename ex_logger (stamp ex_logger ex_next_day) = Some 1"
  proof (rule first_free_eq)
    show "lookup ex_world_norename (archive_name ex_logger (stamp ex_logger ex_next_day) 1) = None"
      unfolding ex_names by (simp add: lookup_def ex_defs ex2_defs)
  qed simp_all
  show "first_free ex_world_second ex_logger (stamp ex_logger ex_next_day) = Some 2"
  proof (rule first_free_eq)
    show "lookup ex_world_second (archive_name ex_logger (stamp ex_logger ex_next_day) 2) = None"
      unfolding ex_names by (simp add: lookup_def ex_defs ex2_defs)
    have "lookup ex_world_second (archive_name ex_logger (stamp ex_logger ex_next_day) 1) \<noteq> None"
      unfolding ex_names by (simp add: lookup_def ex_defs ex2_defs)
    moreover have "n = 1" if "1 \<le> n \<and> n < 2" for n :: nat
      using that by simp
    ultimately show "\<forall>n. 1 \<le> n \<and> n < 2 \<longrightarrow>
        lookup ex_world_second (archive_name ex_logger (stamp ex_logger ex_next_day) n) \<noteq> None"
      by blast
  qed simp_all
qed


lemma ex_perm: "ParseInt8 (PermitMask ex_logger) = Inr 511"
  by (simp add: ex_logger_def ParseInt8_def octal_value_def is_octal_def)



text \<open>
  C7. When the rotator renames the active file, the date in the archival name is the date
  of the previous open time if the day of month of the write differs from the recorded
  open day, and the date of the write instant if the two days of month are equal (the
  rotation then comes from the size or line limit).
\<close>

theorem createFreshFile_stamp:
  assumes "ParseInt8 (PermitMask f) = Inr perm" and "lookup w (Filename f) = Some i"
    and "first_free w f (stamp f logTime) = Some k"
    and "createFreshFile logTime f w = (r, f', w')"
  shows "(Day logTime \<noteq> dailyOpenDate f \<longrightarrow>
            OsRename (Filename f)
              (fileNameOnly f @ ''.'' @ Format_date (dailyOpenTime f) @ ''.'' @ pad 3 (dec k) @ suffix f)
              \<in> set (trace w')) \<and>
         (Day logTime = dailyOpenDate f \<longrightarrow>
            OsRename (Filename f)
              (fileNameOnly f @ ''.'' @ Format_date logTime @ ''.'' @ pad 3 (dec k) @ suffix f)
              \<in> set (trace w'))"
proof -
  have "OsRename (Filename f) (archive_name f (stamp f logTime) k) \<in> set (trace w')"
    using createFreshFile_rename [OF assms] by auto
  then show ?thesis
    by (auto simp: stamp_def archive_name_def)
qed

theorem createFreshFile_stamp_witness:
  "Day ex_next_day \<noteq> dailyOpenDate ex_logger \<and>
   OsRename ''log/app.log'' ''log/app.2021-03-01.001.log''
     \<in> set (trace (snd (snd (createFreshFile ex_next_day ex_logger ex_world)))) \<and>
   Day ex_next_month = dailyOpenDate ex_logger \<and>
   OsRename ''log/app.log'' ''log/app.2021-04-01.001.log''
     \<in> set (trace (snd (snd (createFreshFile ex_next_month ex_logger ex_world))))"
proof -
  have e1: "lookup ex_world (Filename ex_logger) = Some 2"
    by (simp add: lookup_def ex_defs)
  note f1 = ex_first_free(1) and f2 = ex_first_free(3)
  have d: "Day ex_next_day \<noteq> dailyOpenDate ex_logger" "Day ex_next_month = dailyOpenDate ex_logger"
    by (simp_all add: Day_def ex_defs ex2_defs)
  have a: "fileNameOnly ex_logger @ ''.'' @ Format_date (dailyOpenTime ex_logger) @ ''.'' @
             pad 3 (dec 1) @ suffix ex_logger = ''log/app.2021-03-01.001.log''"
    "fileNameOnly ex_logger @ ''.'' @ Format_date ex_next_month @ ''.'' @
             pad 3 (dec 1) @ suffix ex_logger = ''log/app.2021-04-01.001.log''"
    by code_simp+
  have fn: "Filename ex_logger = ''log/app.log''"
    by (simp add: ex_logger_def)
  have c: "createFreshFile t ex_logger w = (fst (createFreshFile t ex_logger w),
             fst (snd (createFreshFile t ex_logger w)), snd (snd (createFreshFile t ex_logger w)))"
    for t w by simp
  show ?thesis
    using createFreshFile_stamp [OF ex_perm e1 f1 c] createFreshFile_stamp [OF ex_perm e1 f2 c]
      d a fn
    by simp
qed

text \<open>What the rotator does when the rename is refused.\<close>

lemma rename_refused:
  assumes "ParseInt8 (PermitMask f) = Inr perm" and "lookup w (Filename f) = Some i"
    and "first_free w f (stamp f logTime) = Some k"
    and "denied w (OsRename (Filename f) (archive_name f (stamp f logTime) k))"
    and "createFreshFile logTime f w = (r, f', w')"
  shows "stderr w' = stderr w @
           [RenameReport (Filename f) (archive_name f (stamp f logTime) k)
              (OSError (OsRename (Filename f) (archive_name f (stamp f logTime) k)))] \<and>
         (r = None \<or> (\<exists>e. r = Some (RotateStartLogger e))) \<and>
         OsOpenFile (Filename f) (FileMode perm) \<in> set (trace w') \<and>
         (\<not> denied w (OsOpenFile (Filename f) (FileMode perm)) \<and>
          \<not> denied w (OsChmod (Filename f) (FileMode perm)) \<and> \<not> is_dir (inodes w i) \<longrightarrow>
            usable f' \<and> map_option fino (fileWriter f') = lookup w' (Filename f)) \<and>
         (denied w (OsOpenFile (Filename f) (FileMode perm)) \<longrightarrow>
            \<not> usable f' \<and>
            r = Some (RotateStartLogger (OSError (OsOpenFile (Filename f) (FileMode perm)))))"
proof -
  let ?A = "archive_name f (stamp f logTime) k"
  let ?ev = "OsRename (Filename f) ?A"
  define f1 where "f1 = f\<lparr>fileWriter := (case fileWriter f of None \<Rightarrow> None
                                | Some h \<Rightarrow> Some (h\<lparr>closed := True\<rparr>))\<rparr>"
  define w3 where "w3 = (probed w f (stamp f logTime) k)\<lparr>trace :=
                  trace (probed w f (stamp f logTime) k) @ closing f\<rparr>"
  define W where "W = (emit ?ev w3)\<lparr>stderr := stderr (emit ?ev w3) @
                         [RenameReport (Filename f) ?A (OSError ?ev)]\<rparr>"
  have d3: "denied w3 ?ev"
    using assms(4) by (simp add: w3_def probed_def)
  have rl: "RestartLogger f1 W = (r, f', w')"
    using assms(5) unfolding createFreshFile_found [OF assms(1-3)] Let_def
      f1_def [symmetric] w3_def [symmetric] os_Rename_denied [OF d3] W_def by simp
  obtain r0 f0 w0 where nf: "newFile f1 W = (r0, f0, w0)"
    by (cases "newFile f1 W")
  have res: "r = map_option RotateStartLogger r0" "f' = f0" "w' = emit GoDeleteOldLog w0"
    using RestartLogger_eq [OF nf] rl by simp_all
  have W: "stderr W = stderr w @ [RenameReport (Filename f) ?A (OSError ?ev)]"
      "denied W = denied w" "lookup W (Filename f) = Some i" "inodes W = inodes w"
    using assms(2) by (simp_all add: W_def w3_def probed_def emit_def lookup_def)
  have p1: "ParseInt8 (PermitMask f1) = Inr perm" and p2: "Filename f1 = Filename f"
    and p3: "\<not> usable f1"
    using assms(1) by (simp_all add: f1_def usable_def split: option.splits)
  have "kept (Filename f) W w'"
    using RestartLogger_kept [OF rl] p2 by simp
  then have c1: "stderr w' = stderr w @ [RenameReport (Filename f) ?A (OSError ?ev)]"
    using W(1) by (simp add: kept_def)
  have c2: "r = None \<or> (\<exists>e. r = Some (RotateStartLogger e))"
    using res(1) by (cases r0) simp_all
  have c3: "OsOpenFile (Filename f) (FileMode perm) \<in> set (trace w')"
    using newFile_trace_open [OF p1 nf] res(3) p2 by (simp add: emit_def)
  have c4: "usable f' \<and> map_option fino (fileWriter f') = lookup w' (Filename f)"
    if "\<not> denied w (OsOpenFile (Filename f) (FileMode perm))"
      "\<not> denied w (OsChmod (Filename f) (FileMode perm))" "\<not> is_dir (inodes w i)"
  proof -
    have "\<exists>h w1. createLogFile f1 W = (Inr h, w1)"
      using that W(2-4) p2 by (intro createLogFile_ok [OF p1]) simp_all
    then obtain h w1 where cl: "createLogFile f1 W = (Inr h, w1)"
      by blast
    note h = createLogFile_Inr [OF cl]
    note o = newFile_opened [OF cl nf]
    have "quiet w1 w'"
      using o res(3) quiet_emit_right by blast
    then have "lookup w' (Filename f) = Some (fino h)"
      using h p2 quiet_fields(7) by simp
    then show ?thesis
      using h o res(2) by (simp add: usable_def)
  qed
  have c5: "\<not> usable f' \<and>
            r = Some (RotateStartLogger (OSError (OsOpenFile (Filename f) (FileMode perm))))"
    if "denied w (OsOpenFile (Filename f) (FileMode perm))"
  proof -
    have "denied W (OsOpenFile (Filename f1) (FileMode perm))"
      using that W(2) p2 by simp
    from newFile_failed_open [OF createLogFile_denied [OF p1 this]] nf res p2 p3
    show ?thesis
      by simp
  qed
  show ?thesis
    using c1 c2 c3 c4 c5 by blast
qed

text \<open>
  C1 (as the code has it). When the rename to the archival name is refused, the rotator
  prints the failure on the error sink, does not return it, and calls \<open>newFile\<close>, which
  tries to open the original filename. If that open and the change of mode that follows
  are not refused, the logger holds an open handle on the file of that name afterwards.
  If the open is refused, the rotator returns that error, wrapped, and the logger is left
  with its closed handle.
\<close>

theorem createFreshFile_rename_refused:
  assumes "ParseInt8 (PermitMask f) = Inr perm" and "lookup w (Filename f) = Some i"
    and "first_free w f (stamp f logTime) = Some k"
    and "denied w (OsRename (Filename f) (archive_name f (stamp f logTime) k))"
    and "createFreshFile logTime f w = (r, f', w')"
  shows "stderr w' = stderr w @
           [RenameReport (Filename f) (archive_name f (stamp f logTime) k)
              (OSError (OsRename (Filename f) (archive_name f (stamp f logTime) k)))] \<and>
         (r = None \<or> (\<exists>e. r = Some (RotateStartLogger e))) \<and>
         OsOpenFile (Filename f) (FileMode perm) \<in> set (trace w') \<and>
         (\<not> denied w (OsOpenFile (Filename f) (FileMode perm)) \<and>
          \<not> denied w (OsChmod (Filename f) (FileMode perm)) \<and> \<not> is_dir (inodes w i) \<longrightarrow>
            usable f' \<and> map_option fino (fileWriter f') = lookup w' (Filename f)) \<and>
         (denied w (OsOpenFile (Filename f) (FileMode perm)) \<longrightarrow>
            \<not> usable f' \<and>
            r = Some (RotateStartLogger (OSError (OsOpenFile (Filename f) (FileMode perm)))))"
  by (rule rename_refused [OF assms])

theorem createFreshFile_rename_refused_witness:
  "denied ex_world_norename (OsRename ''log/app.log'' ''log/app.2021-03-01.001.log'') \<and>
   stderr (snd (snd (createFreshFile ex_next_day ex_logger ex_world_norename))) =
     [RenameReport ''log/app.log'' ''log/app.2021-03-01.001.log''
        (OSError (OsRename ''log/app.log'' ''log/app.2021-03-01.001.log''))] \<and>
   usable (fst (snd (createFreshFile ex_next_day ex_logger ex_world_norename)))"
proof -
  let ?d = "stamp ex_logger ex_next_day"
  have e1: "lookup ex_world_norename (Filename ex_logger) = Some 2"
    by (simp add: lookup_def ex_defs ex2_defs)
  note f1 = ex_first_free(4) and a = ex_names(1)
  have fn: "Filename ex_logger = ''log/app.log''"
    by (simp add: ex_logger_def)
  have dn: "denied ex_world_norename (OsRename (Filename ex_logger) (archive_name ex_logger ?d 1))"
    unfolding a fn by (simp add: ex_defs ex2_defs)
  have ok: "\<not> denied ex_world_norename (OsOpenFile (Filename ex_logger) (FileMode 511))"
    "\<not> denied ex_world_norename (OsChmod (Filename ex_logger) (FileMode 511))"
    "\<not> is_dir (inodes ex_world_norename 2)" "stderr ex_world_norename = []"
    by (simp_all add: ex_defs ex2_defs)
  have c: "createFreshFile t ex_logger w = (fst (createFreshFile t ex_logger w),
             fst (snd (createFreshFile t ex_logger w)), snd (snd (createFreshFile t ex_logger w)))"
    for t w by simp
  show ?thesis
    using createFreshFile_rename_refused [OF ex_perm e1 f1 dn c] ok dn
    unfolding a fn by simp
qed

text \<open>
  On a file system that has become read-only the rename and the open are both refused:
  the rotation leaves the logger without a usable handle, and the write that asked for
  the rotation fails.
\<close>

theorem createFreshFile_rename_refused_counterexample:
  "usable ex_logger \<and>
   \<not> usable (fst (snd (createFreshFile ex_next_day ex_logger ex_world_readonly))) \<and>
   fst (LogWrite ex_next_day (StringMsg ''hello'') 3 ex_logger ex_world_readonly)
     = Some (ErrClosed (FileWrite ''log/app.log''))"
  by code_simp

section \<open>The write path\<close>

lemma file_Write_error:
  "file_Write fp b w = (Some e, w1) \<Longrightarrow> is_write_error e"
  by (auto simp: file_Write_def Let_def split: option.splits if_splits)

lemma file_Write_stderr:
  "stderr (snd (file_Write fp b w)) = stderr w"
  by (auto simp: file_Write_def Let_def emit_def split: option.splits if_splits)

lemma rotate_if_due_not_due:
  "\<not> due when m f \<Longrightarrow> rotate_if_due when (m @ [newline]) f w = (f, w)"
  by (simp add: rotate_if_due_def due_def)

lemma rotate_if_due_report:
  assumes "due when m f" and "createFreshFile when f w = (Some e, f', w')"
  shows "rotate_if_due when (m @ [newline]) f w =
           (f', w'\<lparr>stderr := stderr w' @ [CreateFreshFileReport (Filename f') e]\<rparr>)"
  using assms by (simp add: rotate_if_due_def due_def)

lemma RestartLogger_error:
  "RestartLogger f w = (Some e, f', w') \<Longrightarrow> \<exists>e'. e = RotateStartLogger e'"
  by (auto simp: RestartLogger_def split: prod.splits option.splits)

lemma createFreshFile_error:
  assumes "createFreshFile logTime f w = (Some e, f', w')"
  shows "\<not> is_write_error e"
proof -
  have "(\<exists>s. e = NumError s) \<or> (\<exists>e'. e = RotateStartLogger e') \<or>
        (\<exists>p. e = NoFreeLogNumber p) \<or> (\<exists>e'. e = RotateErr e')"
    using assms
    by (auto simp: createFreshFile_def ParseInt8_def Let_def
        split: sum.splits prod.splits option.splits if_splits
        dest!: RestartLogger_error)
  then show ?thesis by auto
qed

lemma rotate_if_due_stderr:
  assumes "due when m f" and "createFreshFile when f w = (cr, cf, cw)"
  shows "set (stderr cw) \<subseteq> set (stderr (snd (rotate_if_due when (m @ [newline]) f w)))"
  using assms by (cases cr) (auto simp: rotate_if_due_def due_def)

lemma LogWrite_StringMsg:
  assumes "level \<le> LogLevel f"
    and "rotate_if_due when (m @ [newline]) f w = (f1, w1)"
  shows "LogWrite when (StringMsg m) level f w =
     (case file_Write (fileWriter f1) (m @ [newline]) w1 of
        (None, w2) \<Rightarrow>
          (None,
           f1\<lparr>maxLinesCurLines := maxLinesCurLines f1 + 1,
              maxSizeCurSize := maxSizeCurSize f1 + of_nat (length (m @ [newline]))\<rparr>,
           w2)
      | (Some err, w2) \<Rightarrow> (Some err, f1, w2))"
  using assms by (simp add: LogWrite_def Let_def)

lemma LogWrite_filtered:
  "msgText = OtherMsg \<or> LogLevel f < level \<Longrightarrow> LogWrite when msgText level f w = (None, f, w)"
  by (auto simp: LogWrite_def split: msgText.splits)

text \<open>
  C9. For a write that passes the filters, let \<open>f1\<close> be the logger as the append finds
  it (after the rotation check). The write returns the error of the append. If the
  append fails the two counters keep the values they have in \<open>f1\<close>; if it succeeds the
  line count is one more and the byte size is larger by the length of the message with
  its line terminator. When no rotation is due, \<open>f1\<close> is the logger before the call.
\<close>

theorem LogWrite_counters:
  assumes "level \<le> LogLevel f"
    and "rotate_if_due when (m @ [newline]) f w = (f1, w1)"
    and "LogWrite when (StringMsg m) level f w = (r, f2, w2)"
  shows "r = fst (file_Write (fileWriter f1) (m @ [newline]) w1) \<and>
         (r \<noteq> None \<longrightarrow>
           maxLinesCurLines f2 = maxLinesCurLines f1 \<and> maxSizeCurSize f2 = maxSizeCurSize f1) \<and>
         (r = None \<longrightarrow>
           maxLinesCurLines f2 = maxLinesCurLines f1 + 1 \<and>
           maxSizeCurSize f2 = maxSizeCurSize f1 + of_nat (length m + 1)) \<and>
         (\<not> due when m f \<longrightarrow> f1 = f)"
proof -
  obtain a w' where a: "file_Write (fileWriter f1) (m @ [newline]) w1 = (a, w')"
    by (cases "file_Write (fileWriter f1) (m @ [newline]) w1")
  have "f1 = f" if "\<not> due when m f"
    using that assms(2) by (simp add: rotate_if_due_not_due)
  then show ?thesis
    using assms(3) a unfolding LogWrite_StringMsg [OF assms(1,2)]
    by (cases a) auto
qed

theorem LogWrite_counters_witness:
  "fst (LogWrite ex_same_day (StringMsg ''hello'') 3 ex_logger ex_world_nowrite)
     = Some (OSError (FileWrite ''log/app.log'')) \<and>
   maxLinesCurLines (fst (snd (LogWrite ex_same_day (StringMsg ''hello'') 3 ex_logger ex_world_nowrite)))
     = maxLinesCurLines ex_logger \<and>
   maxSizeCurSize (fst (snd (LogWrite ex_same_day (StringMsg ''hello'') 3 ex_logger ex_world_nowrite)))
     = maxSizeCurSize ex_logger \<and>
   fst (LogWrite ex_same_day (StringMsg ''hello'') 3 ex_logger ex_world) = None \<and>
   maxLinesCurLines (fst (snd (LogWrite ex_same_day (StringMsg ''hello'') 3 ex_logger ex_world)))
     = 2 \<and>
   maxSizeCurSize (fst (snd (LogWrite ex_same_day (StringMsg ''hello'') 3 ex_logger ex_world)))
     = 10"
proof -
  have lv: "3 \<le> LogLevel ex_logger"
    by (simp add: ex_logger_def)
  have nd: "\<not> due ex_same_day ''hello'' ex_logger"
    by (simp add: due_def needCreateFresh_def ex_defs Day_def word_sle_eq word_sless_alt)
  have rot: "rotate_if_due ex_same_day (''hello'' @ [newline]) ex_logger w = (ex_logger, w)" for w
    by (rule rotate_if_due_not_due [OF nd])
  have a1: "fst (file_Write (fileWriter ex_logger) (''hello'' @ [newline]) ex_world_nowrite)
              = Some (OSError (FileWrite ''log/app.log''))"
    by (simp add: file_Write_def ex_world_nowrite_def ex_defs Let_def)
  have a2: "fst (file_Write (fileWriter ex_logger) (''hello'' @ [newline]) ex_world) = None"
    by (simp add: file_Write_def ex_defs Let_def)
  have sz: "maxLinesCurLines ex_logger + 1 = 2" "maxSizeCurSize ex_logger + of_nat (length ''hello'' + 1) = 10"
    by (simp_all add: ex_logger_def)
  show ?thesis
    using LogWrite_counters [OF lv rot, of ex_world_nowrite
        "fst (LogWrite ex_same_day (StringMsg ''hello'') 3 ex_logger ex_world_nowrite)"
        "fst (snd (LogWrite ex_same_day (StringMsg ''hello'') 3 ex_logger ex_world_nowrite))"
        "snd (snd (LogWrite ex_same_day (StringMsg ''hello'') 3 ex_logger ex_world_nowrite))"]
      LogWrite_counters [OF lv rot, of ex_world
        "fst (LogWrite ex_same_day (StringMsg ''hello'') 3 ex_logger ex_world)"
        "fst (snd (LogWrite ex_same_day (StringMsg ''hello'') 3 ex_logger ex_world))"
        "snd (snd (LogWrite ex_same_day (StringMsg ''hello'') 3 ex_logger ex_world))"]
    unfolding a1 a2 sz by simp
qed

text \<open>
  C6 (as the code has it). Whatever the call, an error the write path returns is an
  error of the final append on the file handle. For a message that passes the filters
  the result is the result of that append, made on the logger and the world the rotation
  check leaves. An error the rotation returns is never one of the append's errors, and it
  is found on the error sink when the call returns; so is the failure of the rename,
  which the rotation prints itself. The results of the \<^verbatim>\<open>Close\<close> calls inside the
  rotation are not covered: the code discards them.
\<close>

theorem LogWrite_error:
  assumes "LogWrite when msgText level f w = (r, f2, w2)"
  shows "(\<forall>e. r = Some e \<longrightarrow> is_write_error e) \<and>
         (\<forall>m. msgText = StringMsg m \<and> level \<le> LogLevel f \<longrightarrow>
           r = fst (file_Write (fileWriter (fst (rotate_if_due when (m @ [newline]) f w)))
                      (m @ [newline]) (snd (rotate_if_due when (m @ [newline]) f w)))) \<and>
         (\<forall>m e f' w'. msgText = StringMsg m \<and> level \<le> LogLevel f \<and> due when m f \<and>
           createFreshFile when f w = (Some e, f', w') \<longrightarrow>
           \<not> is_write_error e \<and> r \<noteq> Some e \<and>
           CreateFreshFileReport (Filename f') e \<in> set (stderr w2)) \<and>
         (\<forall>m perm i k. msgText = StringMsg m \<and> level \<le> LogLevel f \<and> due when m f \<and>
           ParseInt8 (PermitMask f) = Inr perm \<and> lookup w (Filename f) = Some i \<and>
           first_free w f (stamp f when) = Some k \<and>
           denied w (OsRename (Filename f) (archive_name f (stamp f when) k)) \<longrightarrow>
           r \<noteq> Some (OSError (OsRename (Filename f) (archive_name f (stamp f when) k))) \<and>
           RenameReport (Filename f) (archive_name f (stamp f when) k)
               (OSError (OsRename (Filename f) (archive_name f (stamp f when) k)))
             \<in> set (stderr w2))"
proof (cases "msgText = OtherMsg \<or> LogLevel f < level")
  case True
  then show ?thesis
    using assms by (auto simp: LogWrite_filtered)
next
  case False
  then obtain m where m: "msgText = StringMsg m" and lv: "level \<le> LogLevel f"
    by (cases msgText) auto
  obtain f1 w1 where rot: "rotate_if_due when (m @ [newline]) f w = (f1, w1)"
    by (cases "rotate_if_due when (m @ [newline]) f w")
  obtain a w' where a: "file_Write (fileWriter f1) (m @ [newline]) w1 = (a, w')"
    by (cases "file_Write (fileWriter f1) (m @ [newline]) w1")
  have res: "r = a" "w2 = w'"
    using assms a unfolding m LogWrite_StringMsg [OF lv rot] by (cases a; simp)+
  have e: "is_write_error e" if "r = Some e" for e
    using that a res file_Write_error by blast
  have st: "stderr w2 = stderr w1"
    using file_Write_stderr [of "fileWriter f1" "m @ [newline]" w1] a res by simp
  have rep: "\<not> is_write_error e \<and> r \<noteq> Some e \<and>
             CreateFreshFileReport (Filename f') e \<in> set (stderr w2)"
    if "due when m f" "createFreshFile when f w = (Some e, f', w')" for e f' w'
    using rotate_if_due_report [OF that] rot st createFreshFile_error [OF that(2)] e by auto
  have ren: "r \<noteq> Some (OSError (OsRename (Filename f) (archive_name f (stamp f when) k))) \<and>
             RenameReport (Filename f) (archive_name f (stamp f when) k)
                 (OSError (OsRename (Filename f) (archive_name f (stamp f when) k)))
               \<in> set (stderr w2)"
    if "due when m f" "ParseInt8 (PermitMask f) = Inr perm" "lookup w (Filename f) = Some i"
      "first_free w f (stamp f when) = Some k"
      "denied w (OsRename (Filename f) (archive_name f (stamp f when) k))" for perm i k
  proof -
    obtain cr cf cw where c: "createFreshFile when f w = (cr, cf, cw)"
      by (cases "createFreshFile when f w")
    have "RenameReport (Filename f) (archive_name f (stamp f when) k)
            (OSError (OsRename (Filename f) (archive_name f (stamp f when) k)))
          \<in> set (stderr cw)"
      using rename_refused [OF that(2-5) c] by simp
    then have "RenameReport (Filename f) (archive_name f (stamp f when) k)
            (OSError (OsRename (Filename f) (archive_name f (stamp f when) k)))
          \<in> set (stderr w1)"
      using rotate_if_due_stderr [OF that(1) c] rot by auto
    moreover have "r \<noteq> Some (OSError (OsRename (Filename f) (archive_name f (stamp f when) k)))"
      using e by force
    ultimately show ?thesis
      using st by simp
  qed
  have "\<forall>e. r = Some e \<longrightarrow> is_write_error e"
    using e by blast
  moreover have "\<forall>m'. msgText = StringMsg m' \<and> level \<le> LogLevel f \<longrightarrow>
           r = fst (file_Write (fileWriter (fst (rotate_if_due when (m' @ [newline]) f w)))
                      (m' @ [newline]) (snd (rotate_if_due when (m' @ [newline]) f w)))"
    using res a rot m by auto
  moreover have "\<forall>m' e f' w'. msgText = StringMsg m' \<and> level \<le> LogLevel f \<and> due when m' f \<and>
           createFreshFile when f w = (Some e, f', w') \<longrightarrow>
           \<not> is_write_error e \<and> r \<noteq> Some e \<and>
           CreateFreshFileReport (Filename f') e \<in> set (stderr w2)"
    using rep m by auto
  moreover have "\<forall>m' perm i k. msgText = StringMsg m' \<and> level \<le> LogLevel f \<and> due when m' f \<and>
           ParseInt8 (PermitMask f) = Inr perm \<and> lookup w (Filename f) = Some i \<and>
           first_free w f (stamp f when) = Some k \<and>
           denied w (OsRename (Filename f) (archive_name f (stamp f when) k)) \<longrightarrow>
           r \<noteq> Some (OSError (OsRename (Filename f) (archive_name f (stamp f when) k))) \<and>
           RenameReport (Filename f) (archive_name f (stamp f when) k)
               (OSError (OsRename (Filename f) (archive_name f (stamp f when) k)))
             \<in> set (stderr w2)"
    using ren m by auto
  ultimately show ?thesis
    by blast
qed

theorem LogWrite_error_witness:
  "fst (LogWrite ex_next_day (StringMsg ''hello'') 3 ex_logger ex_world_nochmod)
     = Some (ErrClosed (FileWrite ''log/app.log'')) \<and>
   fst (createFreshFile ex_next_day ex_logger ex_world_nochmod)
     = Some (RotateErr (OSError (OsChmod ''log/app.2021-03-01.001.log'' 511))) \<and>
   CreateFreshFileReport ''log/app.log''
       (RotateErr (OSError (OsChmod ''log/app.2021-03-01.001.log'' 511)))
     \<in> set (stderr (snd (snd (LogWrite ex_next_day (StringMsg ''hello'') 3 ex_logger ex_world_nochmod))))"
proof -
  let ?E = "RotateErr (OSError (OsChmod ''log/app.2021-03-01.001.log'' 511))"
  let ?C = "createFreshFile ex_next_day ex_logger ex_world_nochmod"
  let ?L = "LogWrite ex_next_day (StringMsg ''hello'') 3 ex_logger ex_world_nochmod"
  have lv: "3 \<le> LogLevel ex_logger"
    by (simp add: ex_logger_def)
  have d: "due ex_next_day ''hello'' ex_logger"
    by (simp add: due_def needCreateFresh_def ex_defs Day_def)
  have c: "fst ?C = Some ?E \<and> Filename (fst (snd ?C)) = ''log/app.log''"
    by code_simp
  then have c': "?C = (Some ?E, fst (snd ?C), snd (snd ?C))"
    by (metis prod.collapse)
  have r: "fst ?L = Some (ErrClosed (FileWrite ''log/app.log''))"
    by code_simp
  have l: "?L = (fst ?L, fst (snd ?L), snd (snd ?L))"
    by simp
  have "\<forall>m e f' w'. StringMsg ''hello'' = StringMsg m \<and> 3 \<le> LogLevel ex_logger \<and>
           due ex_next_day m ex_logger \<and> ?C = (Some e, f', w') \<longrightarrow>
           \<not> is_write_error e \<and> fst ?L \<noteq> Some e \<and>
           CreateFreshFileReport (Filename f') e \<in> set (stderr (snd (snd ?L)))"
    using LogWrite_error [OF l] by (rule conjunct2 [THEN conjunct2, THEN conjunct1])
  then have "CreateFreshFileReport (Filename (fst (snd ?C))) ?E \<in> set (stderr (snd (snd ?L)))"
    using lv d c' by blast
  then show ?thesis
    using c r by simp
qed

text \<open>
  An error that arises inside the rotation and reaches neither the caller nor the error
  sink: after shutdown the handle is closed, so the \<^verbatim>\<open>Close\<close> the rotator makes before
  the rename returns the closed-file error; the rotation goes on, the write returns no
  error and nothing is printed.
\<close>

theorem LogWrite_error_counterexample:
  "due ex_next_day ''hello'' (fst (Destroy ex_logger ex_world)) \<and>
   fst (file_Close (fileWriter (fst (Destroy ex_logger ex_world)))
          (probed (snd (Destroy ex_logger ex_world)) (fst (Destroy ex_logger ex_world))
             (stamp (fst (Destroy ex_logger ex_world)) ex_next_day) 1))
     = Some (ErrClosed (FileClose ''log/app.log'')) \<and>
   OsRename ''log/app.log'' ''log/app.2021-03-01.001.log''
     \<in> set (trace (snd (snd (LogWrite ex_next_day (StringMsg ''hello'') 3
            (fst (Destroy ex_logger ex_world)) (snd (Destroy ex_logger ex_world)))))) \<and>
   fst (LogWrite ex_next_day (StringMsg ''hello'') 3
          (fst (Destroy ex_logger ex_world)) (snd (Destroy ex_logger ex_world))) = None \<and>
   stderr (snd (snd (LogWrite ex_next_day (StringMsg ''hello'') 3
          (fst (Destroy ex_logger ex_world)) (snd (Destroy ex_logger ex_world))))) = []"
  by code_simp

section \<open>Writing after shutdown\<close>

lemma Destroy_fileWriter:
  "fileWriter (fst (Destroy f w0)) =
     (case fileWriter f of None \<Rightarrow> None | Some h \<Rightarrow> Some (h\<lparr>closed := True\<rparr>))"
  by (auto simp: Destroy_def file_Close_def split: option.splits prod.splits)

text \<open>
  C8 (as the code has it). After shutdown the handle is closed (or was never there).
  A write that passes the filters and for which no rotation is due fails with the
  closed-file error (the invalid-handle error when there was no handle), and changes
  neither the logger nor the world.
\<close>

theorem write_after_Destroy:
  assumes "level \<le> LogLevel f" and "\<not> due when m (fst (Destroy f w0))"
  shows "LogWrite when (StringMsg m) level (fst (Destroy f w0)) w =
           (Some (case fileWriter f of None \<Rightarrow> ErrInvalid
                  | Some h \<Rightarrow> ErrClosed (FileWrite (fname h))),
            fst (Destroy f w0), w)"
proof -
  have lv: "level \<le> LogLevel (fst (Destroy f w0))"
    using assms(1) by (simp add: Destroy_def split: prod.splits)
  show ?thesis
    unfolding LogWrite_StringMsg [OF lv rotate_if_due_not_due [OF assms(2)]]
    by (cases "fileWriter f") (simp_all add: Destroy_fileWriter file_Write_def)
qed

theorem write_after_Destroy_witness:
  "LogWrite ex_same_day (StringMsg ''hello'') 3 (fst (Destroy ex_logger ex_world)) ex_world =
     (Some (ErrClosed (FileWrite ''log/app.log'')), fst (Destroy ex_logger ex_world), ex_world)"
proof -
  have lv: "3 \<le> LogLevel ex_logger"
    by (simp add: ex_logger_def)
  have nd: "\<not> due ex_same_day ''hello'' (fst (Destroy ex_logger ex_world))"
    by (simp add: due_def needCreateFresh_def ex_defs Day_def Destroy_def file_Close_def
        word_sle_eq word_sless_alt)
  show ?thesis
    using write_after_Destroy [OF lv nd, of ex_world] by (simp add: ex_logger_def)
qed

text \<open>
  After shutdown a write for which rotation is due re-opens the file and succeeds: the
  next day's message is appended to a fresh \<^verbatim>\<open>log/app.log\<close>.
\<close>

theorem write_after_Destroy_counterexample:
  "\<not> usable (fst (Destroy ex_logger ex_world)) \<and>
   fst (LogWrite ex_next_day (StringMsg ''hello'') 3
          (fst (Destroy ex_logger ex_world)) (snd (Destroy ex_logger ex_world))) = None \<and>
   usable (fst (snd (LogWrite ex_next_day (StringMsg ''hello'') 3
          (fst (Destroy ex_logger ex_world)) (snd (Destroy ex_logger ex_world))))) \<and>
   content (inodes (snd (snd (LogWrite ex_next_day (StringMsg ''hello'') 3
          (fst (Destroy ex_logger ex_world)) (snd (Destroy ex_logger ex_world))))) 3)
     = ''hello'' @ [newline]"
  by code_simp

section \<open>What a sweep removes\<close>

text \<open>What one visit of the sweep does to a name: nothing, or the removal of that name.\<close>

lemma os_Remove_world:
  "snd (os_Remove p w) = emit (OsRemove p) w \<or>
   snd (os_Remove p w) = (emit (OsRemove p) w)\<lparr>dirents := AList.delete p (dirents w)\<rparr>"
  by (simp add: os_Remove_def Let_def)

lemma visit_walkFn:
  assumes "w' = visit (walkFn f) p w"
  shows "inodes w' = inodes w \<and> now w' = now w \<and>
         ((\<forall>q. lookup w' q = lookup w q) \<or>
          ((\<forall>q. lookup w' q = (if q = p then None else lookup w q)) \<and>
           (\<exists>i. lookup w p = Some i \<and> MaxDays f \<noteq> - 1 \<and> \<not> is_dir (inodes w i) \<and>
                HasPrefix (Base p) (Base (fileNameOnly f)) \<and> HasSuffix (Base p) (suffix f) \<and>
                mod_time (inodes w i) + sint (retention f) < instant (now w))))"
proof (cases "lookup w p")
  case None
  then show ?thesis
    using assms by (simp add: visit_def walkFn_def)
next
  case (Some i)
  let ?c = "MaxDays f \<noteq> - 1 \<and> \<not> is_dir (inodes w i) \<and>
            mod_time (inodes w i) + sint (retention f) < instant (now w) \<and>
            HasPrefix (Base p) (Base (fileNameOnly f)) \<and> HasSuffix (Base p) (suffix f)"
  show ?thesis
  proof (cases ?c)
    case True
    then have w': "w' = snd (os_Remove p w)"
      using assms Some by (simp add: visit_def walkFn_def info_of_def)
    from os_Remove_world [of p w] show ?thesis
    proof
      assume "snd (os_Remove p w) = emit (OsRemove p) w"
      then show ?thesis
        using w' by (simp add: emit_def lookup_def)
    next
      assume "snd (os_Remove p w) =
                (emit (OsRemove p) w)\<lparr>dirents := AList.delete p (dirents w)\<rparr>"
      then have "w' = (emit (OsRemove p) w)\<lparr>dirents := AList.delete p (dirents w)\<rparr>"
        using w' by simp
      then have "inodes w' = inodes w" "now w' = now w"
        "\<forall>q. lookup w' q = (if q = p then None else lookup w q)"
        by (simp_all add: emit_def lookup_def delete_conv')
      then show ?thesis
        using True Some by simp
    qed
  next
    case False
    then have "w' = w"
      using assms Some by (auto simp: visit_def walkFn_def info_of_def)
    then show ?thesis by simp
  qed
qed

lemma swept_visit:
  assumes "swept f w0 w"
  shows "swept f w0 (visit (walkFn f) p w)"
proof -
  note v = visit_walkFn [OF refl, of f p w]
  let ?w' = "visit (walkFn f) p w"
  have eq: "inodes ?w' = inodes w0" "now ?w' = now w0"
    using v assms by (simp_all add: swept_def)
  from v have "(\<forall>q. lookup ?w' q = lookup w q) \<or>
          ((\<forall>q. lookup ?w' q = (if q = p then None else lookup w q)) \<and>
           (\<exists>i. lookup w p = Some i \<and> MaxDays f \<noteq> - 1 \<and> \<not> is_dir (inodes w i) \<and>
                HasPrefix (Base p) (Base (fileNameOnly f)) \<and> HasSuffix (Base p) (suffix f) \<and>
                mod_time (inodes w i) + sint (retention f) < instant (now w)))"
    by blast
  then show ?thesis
  proof
    assume "\<forall>q. lookup ?w' q = lookup w q"
    then show ?thesis
      using assms eq by (simp add: swept_def)
  next
    assume r: "(\<forall>q. lookup ?w' q = (if q = p then None else lookup w q)) \<and>
           (\<exists>i. lookup w p = Some i \<and> MaxDays f \<noteq> - 1 \<and> \<not> is_dir (inodes w i) \<and>
                HasPrefix (Base p) (Base (fileNameOnly f)) \<and> HasSuffix (Base p) (suffix f) \<and>
                mod_time (inodes w i) + sint (retention f) < instant (now w))"
    then obtain i where i: "lookup w p = Some i" "MaxDays f \<noteq> - 1" "\<not> is_dir (inodes w i)"
        "HasPrefix (Base p) (Base (fileNameOnly f))" "HasSuffix (Base p) (suffix f)"
        "mod_time (inodes w i) + sint (retention f) < instant (now w)"
      by blast
    have w0: "lookup w0 p = Some i"
      using assms i(1) unfolding swept_def by (metis option.distinct(1))
    have "lookup ?w' q = lookup w0 q \<or>
           (lookup ?w' q = None \<and>
            (\<exists>i. lookup w0 q = Some i \<and> MaxDays f \<noteq> - 1 \<and> \<not> is_dir (inodes w0 i) \<and>
                 HasPrefix (Base q) (Base (fileNameOnly f)) \<and> HasSuffix (Base q) (suffix f) \<and>
                 mod_time (inodes w0 i) + sint (retention f) < instant (now w0)))" for q
    proof (cases "q = p")
      case True
      then show ?thesis
        using r i w0 assms by (simp add: swept_def)
    next
      case False
      then have "lookup ?w' q = lookup w q"
        using r by simp
      then show ?thesis
        using assms unfolding swept_def by metis
    qed
    then show ?thesis
      using eq unfolding swept_def by blast
  qed
qed

lemma swept_fold:
  "swept f w0 w \<Longrightarrow> swept f w0 (fold (visit (walkFn f)) ps w)"
  by (induction ps arbitrary: w) (simp_all add: swept_visit)

lemma swept_emit: "swept f w (emit e w)"
  by (simp add: swept_def emit_def lookup_def)

lemma swept_deleteOldLog: "swept f w (deleteOldLog f w)"
proof -
  let ?root = "Dir (Filename f)"
  let ?w1 = "emit (Walk ?root) w"
  have s1: "swept f w ?w1"
    by (rule swept_emit)
  show ?thesis
  proof (cases "lookup w ?root")
    case None
    then show ?thesis
      using s1 by (simp add: deleteOldLog_def filepath_Walk_def walkFn_def)
  next
    case (Some i)
    show ?thesis
    proof (cases "is_dir (inodes w i)")
      case True
      then show ?thesis
        using Some swept_fold [OF swept_visit [OF s1]]
        by (simp add: deleteOldLog_def filepath_Walk_def)
    next
      case False
      then show ?thesis
        using Some swept_visit [OF s1] by (simp add: deleteOldLog_def filepath_Walk_def)
    qed
  qed
qed

text \<open>With unlimited retention no visit changes the world.\<close>

lemma walkFn_unlimited: "MaxDays f = - 1 \<Longrightarrow> walkFn f p info w = w"
  by (simp add: walkFn_def split: option.splits)

lemma deleteOldLog_unlimited:
  assumes "MaxDays f = - 1"
  shows "deleteOldLog f w = emit (Walk (Dir (Filename f))) w"
proof -
  have v: "visit (walkFn f) p w' = w'" for p w'
    using assms by (simp add: visit_def walkFn_unlimited)
  have "fold (visit (walkFn f)) ps w' = w'" for ps w'
    by (induction ps) (simp_all add: v)
  then show ?thesis
    using assms v by (simp add: deleteOldLog_def filepath_Walk_def walkFn_unlimited
        split: option.splits)
qed

lemma retention_days:
  assumes "- 106751 \<le> sint (MaxDays f)" and "sint (MaxDays f) \<le> 106751"
  shows "sint (retention f) = 86400000000000 * sint (MaxDays f)"
proof -
  have c: "sint (86400000000000 :: goint) = 86400000000000"
    by simp
  have "sint (retention f) = signed_take_bit 63 (86400000000000 * sint (MaxDays f))"
    unfolding retention_def by (simp add: sint_word_ariths c)
  also have "\<dots> = 86400000000000 * sint (MaxDays f)"
    using assms by (intro signed_take_bit_int_eq_self) simp_all
  finally show ?thesis .
qed

text \<open>
  C2 (as the code has it). A sweep changes no file content and creates no name. A name
  it removes was bound to a non-directory whose base name begins with the base name of
  \<open>baseName\<close> and ends with \<open>suffix\<close> and whose last-modified time plus the retention
  is before now; with \<open>maxDays = -1\<close> the sweep removes nothing. The retention is
  \<open>maxDays\<close> days as long as that number of nanoseconds fits 64 bits. The active file
  is not set apart from the archival files.
\<close>

theorem deleteOldLog_removes_only:
  "(MaxDays f = - 1 \<longrightarrow> dirents (deleteOldLog f w) = dirents w) \<and>
   inodes (deleteOldLog f w) = inodes w \<and>
   (\<forall>p. lookup (deleteOldLog f w) p = lookup w p \<or>
        (lookup (deleteOldLog f w) p = None \<and>
         (\<exists>i. lookup w p = Some i \<and> MaxDays f \<noteq> - 1 \<and> \<not> is_dir (inodes w i) \<and>
              HasPrefix (Base p) (Base (fileNameOnly f)) \<and> HasSuffix (Base p) (suffix f) \<and>
              mod_time (inodes w i) + sint (retention f) < instant (now w)))) \<and>
   (- 106751 \<le> sint (MaxDays f) \<and> sint (MaxDays f) \<le> 106751 \<longrightarrow>
      sint (retention f) = 86400000000000 * sint (MaxDays f))"
  using swept_deleteOldLog [of f w] deleteOldLog_unlimited [of f w] retention_days [of f]
  unfolding swept_def by (simp add: emit_def)

lemma ex_sweep:
  "lookup (deleteOldLog ex_logger ex_world_later) ''log/app.2021-02-28.001.log'' = None"
  "lookup (deleteOldLog ex_logger ex_world_later) ''log/app.2021-03-09.001.log'' = Some 4"
  "lookup (deleteOldLog ex_logger ex_world_later) ''log/notes.txt'' = Some 5"
  "lookup (deleteOldLog ex_logger ex_world_later) ''log/app.log'' = None"
  by code_simp+

theorem deleteOldLog_removes_only_witness:
  "lookup ex_world_later ''log/app.2021-02-28.001.log'' = Some 3 \<and>
   lookup (deleteOldLog ex_logger ex_world_later) ''log/app.2021-02-28.001.log'' = None \<and>
   mod_time (inodes ex_world_later 3) + sint (retention ex_logger) < instant (now ex_world_later) \<and>
   sint (retention ex_logger) = 604800000000000 \<and>
   lookup (deleteOldLog ex_logger ex_world_later) ''log/app.2021-03-09.001.log'' = Some 4 \<and>
   lookup (deleteOldLog ex_logger ex_world_later) ''log/notes.txt'' = Some 5"
proof -
  let ?p = "''log/app.2021-02-28.001.log''"
  have l: "lookup ex_world_later ?p = Some 3"
    by (simp add: lookup_def ex_world_later_def)
  have m: "- 106751 \<le> sint (MaxDays ex_logger) \<and> sint (MaxDays ex_logger) \<le> 106751"
    "86400000000000 * sint (MaxDays ex_logger) = 604800000000000"
    by (simp_all add: ex_logger_def)
  from deleteOldLog_removes_only [of ex_logger ex_world_later]
  have "lookup (deleteOldLog ex_logger ex_world_later) ?p = lookup ex_world_later ?p \<or>
        (lookup (deleteOldLog ex_logger ex_world_later) ?p = None \<and>
         (\<exists>i. lookup ex_world_later ?p = Some i \<and> MaxDays ex_logger \<noteq> - 1 \<and>
              \<not> is_dir (inodes ex_world_later i) \<and>
              HasPrefix (Base ?p) (Base (fileNameOnly ex_logger)) \<and>
              HasSuffix (Base ?p) (suffix ex_logger) \<and>
              mod_time (inodes ex_world_later i) + sint (retention ex_logger)
                < instant (now ex_world_later)))"
    and "sint (retention ex_logger) = 86400000000000 * sint (MaxDays ex_logger)"
    using m(1) by blast+
  then show ?thesis
    using l ex_sweep(1-3) m(2) by auto
qed

text \<open>
  The active file matches the pattern (its name begins with \<^verbatim>\<open>app\<close> and ends with
  \<^verbatim>\<open>.log\<close>). Idle for nine days with \<open>maxDays = 7\<close>, it is removed by a sweep while
  the logger holds it open. With \<open>maxDays = 0\<close>, the sweep that a rotation starts removes
  the file the rotation has just opened, one second after the write.
\<close>

theorem deleteOldLog_active_counterexample:
  "Filename ex_logger = ''log/app.log'' \<and> MaxDays ex_logger = 7 \<and> usable ex_logger \<and>
   map_option fino (fileWriter ex_logger) = lookup ex_world_later ''log/app.log'' \<and>
   lookup (deleteOldLog ex_logger ex_world_later) ''log/app.log'' = None \<and>
   MaxDays ex_logger_nodays = 0 \<and>
   fst (LogWrite ex_next_day (StringMsg ''hello'') 3 ex_logger_nodays ex_world) = None \<and>
   usable (fst (snd (LogWrite ex_next_day (StringMsg ''hello'') 3 ex_logger_nodays ex_world))) \<and>
   map_option fino
       (fileWriter (fst (snd (LogWrite ex_next_day (StringMsg ''hello'') 3 ex_logger_nodays ex_world))))
     = lookup (snd (snd (LogWrite ex_next_day (StringMsg ''hello'') 3 ex_logger_nodays ex_world)))
         ''log/app.log'' \<and>
   lookup
     (deleteOldLog
        (fst (snd (LogWrite ex_next_day (StringMsg ''hello'') 3 ex_logger_nodays ex_world)))
        ((snd (snd (LogWrite ex_next_day (StringMsg ''hello'') 3 ex_logger_nodays ex_world)))
           \<lparr>now := ex_second_later\<rparr>))
     ''log/app.log'' = None"
proof -
  have "Filename ex_logger = ''log/app.log'' \<and> MaxDays ex_logger = 7 \<and> usable ex_logger \<and>
        map_option fino (fileWriter ex_logger) = lookup ex_world_later ''log/app.log''"
    by (simp add: ex_logger_def usable_def lookup_def ex_world_later_def)
  moreover have "MaxDays ex_logger_nodays = 0 \<and>
   fst (LogWrite ex_next_day (StringMsg ''hello'') 3 ex_logger_nodays ex_world) = None \<and>
   usable (fst (snd (LogWrite ex_next_day (StringMsg ''hello'') 3 ex_logger_nodays ex_world))) \<and>
   map_option fino
       (fileWriter (fst (snd (LogWrite ex_next_day (StringMsg ''hello'') 3 ex_logger_nodays ex_world))))
     = lookup (snd (snd (LogWrite ex_next_day (StringMsg ''hello'') 3 ex_logger_nodays ex_world)))
         ''log/app.log'' \<and>
   lookup
     (deleteOldLog
        (fst (snd (LogWrite ex_next_day (StringMsg ''hello'') 3 ex_logger_nodays ex_world)))
        ((snd (snd (LogWrite ex_next_day (StringMsg ''hello'') 3 ex_logger_nodays ex_world)))
           \<lparr>now := ex_second_later\<rparr>))
     ''log/app.log'' = None"
    by code_simp
  ultimately show ?thesis
    using ex_sweep(4) by blast
qed

end
